theory Spec2Isabelle
  imports Complex_Main "HOL-Library.AList"
begin

section \<open>Text, lines and the marker grammar (conflict-parser.ts)\<close>

text \<open>
  A JavaScript string is modelled as a \<^typ>\<open>string\<close>, one \<^typ>\<open>char\<close> per code unit, so
  the model covers texts whose code units lie below 256.  In that range the line
  terminators that the regular-expression dot refuses are line feed and carriage return.
\<close>

definition LF :: char where
  "LF = CHR 0x0A"

definition CR :: char where
  "CR = CHR 0x0D"

text \<open>\<^verbatim>\<open>content.split(/\r?\n/)\<close>: a separator is a line feed, together with the
  carriage return directly before it when there is one.  The result is never empty.\<close>

fun split_lines :: "string \<Rightarrow> string list" where
  "split_lines [] = [[]]"
| "split_lines (c # cs) =
     (if c = LF then [] # split_lines cs
      else if c = CR \<and> cs \<noteq> [] \<and> hd cs = LF then [] # split_lines (tl cs)
      else (case split_lines cs of
              [] \<Rightarrow> [[c]]
            | l # ls \<Rightarrow> (c # l) # ls))"

text \<open>\<^verbatim>\<open>lines.join("\n")\<close>.\<close>

fun join_lines :: "string list \<Rightarrow> string" where
  "join_lines [] = []"
| "join_lines [l] = l"
| "join_lines (l # ls) = l @ LF # join_lines ls"

text \<open>The dot of a regular expression (no \<^verbatim>\<open>s\<close> flag) matches any code unit that is
  not a line terminator; \<^verbatim>\<open>(.+)$\<close> therefore asks for a non-empty rest of the
  subject without line terminators.\<close>

definition dot_plus_to_end :: "string \<Rightarrow> bool" where
  "dot_plus_to_end s \<longleftrightarrow> s \<noteq> [] \<and> list_all (\<lambda>c. c \<noteq> LF \<and> c \<noteq> CR) s"

text \<open>\<^verbatim>\<open>/^<{7} (.+)$/\<close>, \<^verbatim>\<open>/^={7}$/\<close>, \<^verbatim>\<open>/^\|{7} (.+)$/\<close> and
  \<^verbatim>\<open>/^>{7} (.+)$/\<close>, each tested against one whole line.\<close>

definition CONFLICT_START :: "string \<Rightarrow> bool" where
  "CONFLICT_START l \<longleftrightarrow> take 8 l = ''<<<<<<< '' \<and> dot_plus_to_end (drop 8 l)"

definition CONFLICT_MIDDLE :: "string \<Rightarrow> bool" where
  "CONFLICT_MIDDLE l \<longleftrightarrow> l = ''=======''"

definition CONFLICT_BASE :: "string \<Rightarrow> bool" where
  "CONFLICT_BASE l \<longleftrightarrow> take 8 l = ''||||||| '' \<and> dot_plus_to_end (drop 8 l)"

definition CONFLICT_END :: "string \<Rightarrow> bool" where
  "CONFLICT_END l \<longleftrightarrow> take 8 l = ''>>>>>>> '' \<and> dot_plus_to_end (drop 8 l)"

subsection \<open>hasConflictMarkers\<close>

record marker_scan =
  hasStart :: bool
  hasMiddle :: bool
  hasEnd :: bool
  startCount :: nat
  endCount :: nat

definition scan_init :: marker_scan where
  "scan_init = \<lparr>hasStart = False, hasMiddle = False, hasEnd = False, startCount = 0, endCount = 0\<rparr>"

text \<open>One turn of the \<^verbatim>\<open>for (const line of lines)\<close> loop.\<close>

definition scan_line :: "string \<Rightarrow> marker_scan \<Rightarrow> marker_scan" where
  "scan_line line s =
     (if CONFLICT_START line then s\<lparr>hasStart := True, startCount := startCount s + 1\<rparr>
      else if CONFLICT_MIDDLE line then s\<lparr>hasMiddle := True\<rparr>
      else if CONFLICT_END line then s\<lparr>hasEnd := True, endCount := endCount s + 1\<rparr>
      else s)"

definition hasConflictMarkers :: "string \<Rightarrow> bool" where
  "hasConflictMarkers content =
     (let s = fold scan_line (split_lines content) scan_init
      in hasStart s \<and> hasMiddle s \<and> hasEnd s \<and> startCount s = endCount s)"

subsection \<open>parseConflictSection and parseConflicts\<close>

record ConflictSection =
  ours :: string
  theirs :: string
  base :: "string option"
  startLine :: nat
  endLine :: nat

text \<open>\<^verbatim>\<open>lines.slice(a, b)\<close> for indices that are not negative: the elements at
  \<open>a \<le> k < b\<close>, none when \<open>b \<le> a\<close>.\<close>

definition slice :: "'a list \<Rightarrow> nat \<Rightarrow> nat \<Rightarrow> 'a list" where
  "slice xs a b = take (b - a) (drop a xs)"

text \<open>The \<^verbatim>\<open>for\<close> loop of \<^verbatim>\<open>parseConflictSection\<close>.  The indices that start at
  \<^verbatim>\<open>-1\<close> are options; the triple returned is (middleIndex, baseIndex, endIndex) when
  the loop is left, by \<^verbatim>\<open>break\<close> or at the end of the lines.\<close>

function find_markers ::
  "string list \<Rightarrow> nat \<Rightarrow> nat option \<Rightarrow> nat option \<Rightarrow> nat option \<times> nat option \<times> nat option"
where
  "find_markers lines i middleIndex baseIndex =
     (if i < length lines then
        if CONFLICT_MIDDLE (lines ! i) \<and> middleIndex = None then
          find_markers lines (i + 1) (Some i) baseIndex
        else if CONFLICT_BASE (lines ! i) \<and> baseIndex = None then
          find_markers lines (i + 1) middleIndex (Some i)
        else if CONFLICT_END (lines ! i) then (middleIndex, baseIndex, Some i)
        else find_markers lines (i + 1) middleIndex baseIndex
      else (middleIndex, baseIndex, None))"
  by pat_completeness auto
termination
  by (relation "measure (\<lambda>(lines, i, m, b). length lines - i)") auto

declare find_markers.simps [simp del]

definition parseConflictSection :: "string list \<Rightarrow> nat \<Rightarrow> ConflictSection option" where
  "parseConflictSection lines startIndex =
     (case find_markers lines (startIndex + 1) None None of
        (Some middleIndex, baseIndex, Some endIndex) \<Rightarrow>
          (let oursEnd = (case baseIndex of Some b \<Rightarrow> b | None \<Rightarrow> middleIndex);
               theirsStart = middleIndex + 1
           in Some \<lparr>ours = join_lines (slice lines (startIndex + 1) oursEnd),
                    theirs = join_lines (slice lines theirsStart endIndex),
                    base = (case baseIndex of
                              Some b \<Rightarrow> Some (join_lines (slice lines (b + 1) middleIndex))
                            | None \<Rightarrow> None),
                    startLine = startIndex,
                    endLine = endIndex\<rparr>)
      | _ \<Rightarrow> None)"

text \<open>A line matches at most one of the marker patterns that the two loops test in
  sequence, so the order of the \<^verbatim>\<open>else if\<close> chains decides nothing.\<close>

lemma START_not_MIDDLE: "CONFLICT_START l \<Longrightarrow> \<not> CONFLICT_MIDDLE l"
  by (auto simp: CONFLICT_START_def CONFLICT_MIDDLE_def)

lemma START_not_END: "CONFLICT_START l \<Longrightarrow> \<not> CONFLICT_END l"
  by (auto simp: CONFLICT_START_def CONFLICT_END_def)

lemma MIDDLE_not_END: "CONFLICT_MIDDLE l \<Longrightarrow> \<not> CONFLICT_END l"
  by (auto simp: CONFLICT_MIDDLE_def CONFLICT_END_def)

lemma BASE_not_END: "CONFLICT_BASE l \<Longrightarrow> \<not> CONFLICT_END l"
  by (auto simp: CONFLICT_BASE_def CONFLICT_END_def)

lemma find_markers_end:
  "find_markers lines i m b = (m', b', Some e) \<Longrightarrow>
     i \<le> e \<and> e < length lines \<and> CONFLICT_END (lines ! e)"
proof (induction lines i m b rule: find_markers.induct)
  case (1 lines i middleIndex baseIndex)
  from "1.prems" show ?case
    by (subst (asm) find_markers.simps) (auto split: if_splits dest: "1.IH")
qed

lemma find_markers_first_end:
  "find_markers lines i m b = (m', b', Some e) \<Longrightarrow> i \<le> j \<Longrightarrow> j < e \<Longrightarrow>
     \<not> CONFLICT_END (lines ! j)"
proof (induction lines i m b rule: find_markers.induct)
  case (1 lines i middleIndex baseIndex)
  have ji: "j = i \<or> i + 1 \<le> j" using "1.prems"(2) by arith
  from "1.prems"(1) show ?case
    apply (subst (asm) find_markers.simps)
    using ji "1.prems"(2,3) "1.IH"
    by (auto split: if_splits simp: MIDDLE_not_END BASE_not_END)
qed

lemma find_markers_no_end:
  "find_markers lines i m b = (m', b', None) \<Longrightarrow> i \<le> j \<Longrightarrow> j < length lines \<Longrightarrow>
     \<not> CONFLICT_END (lines ! j)"
proof (induction lines i m b rule: find_markers.induct)
  case (1 lines i middleIndex baseIndex)
  have ji: "j = i \<or> i + 1 \<le> j" using "1.prems"(2) by arith
  from "1.prems"(1) show ?case
    apply (subst (asm) find_markers.simps)
    using ji "1.prems"(2,3) "1.IH"
    by (auto split: if_splits simp: MIDDLE_not_END BASE_not_END)
qed

lemma find_markers_keeps_middle:
  "find_markers lines i (Some k) b = (m', b', e') \<Longrightarrow> m' = Some k"
proof (induction lines i "Some k :: nat option" b rule: find_markers.induct)
  case (1 lines i baseIndex)
  from "1.prems" show ?case
    by (subst (asm) find_markers.simps) (auto split: if_splits dest: "1.hyps")
qed

lemma find_markers_range:
  "find_markers lines i m b = (m', b', e') \<Longrightarrow> i \<le> length lines \<Longrightarrow>
     i \<le> (case e' of Some e \<Rightarrow> e | None \<Rightarrow> length lines)"
  by (cases e') (auto dest: find_markers_end)

lemma find_markers_middle_found:
  "find_markers lines i None b = (Some k, b', e') \<Longrightarrow>
     i \<le> k \<and> k < (case e' of Some e \<Rightarrow> e | None \<Rightarrow> length lines) \<and> CONFLICT_MIDDLE (lines ! k)"
proof (induction lines i "None :: nat option" b rule: find_markers.induct)
  case (1 lines i baseIndex)
  show ?case
  proof (cases "i < length lines")
    case False
    with "1.prems" show ?thesis by (subst (asm) find_markers.simps) simp
  next
    case inb: True
    show ?thesis
    proof (cases "CONFLICT_MIDDLE (lines ! i)")
      case True
      with inb "1.prems" have rec: "find_markers lines (i + 1) (Some i) baseIndex = (Some k, b', e')"
        by (subst (asm) find_markers.simps) simp
      then have "k = i" by (auto dest: find_markers_keeps_middle)
      moreover from rec inb have "i + 1 \<le> (case e' of Some e \<Rightarrow> e | None \<Rightarrow> length lines)"
        by (intro find_markers_range) auto
      ultimately show ?thesis using True by simp
    next
      case False
      with inb "1.prems" "1.hyps" show ?thesis
        by (subst (asm) find_markers.simps) (fastforce split: if_splits)
    qed
  qed
qed

lemma find_markers_middle_missing:
  "find_markers lines i None b = (None, b', e') \<Longrightarrow> i \<le> j \<Longrightarrow>
     j < (case e' of Some e \<Rightarrow> e | None \<Rightarrow> length lines) \<Longrightarrow> \<not> CONFLICT_MIDDLE (lines ! j)"
proof (induction lines i "None :: nat option" b rule: find_markers.induct)
  case (1 lines i baseIndex)
  have ji: "j = i \<or> i + 1 \<le> j" using "1.prems"(2) by arith
  show ?case
  proof (cases "i < length lines")
    case False
    with "1.prems" show ?thesis by (subst (asm) find_markers.simps) (auto split: option.splits)
  next
    case inb: True
    show ?thesis
    proof (cases "CONFLICT_MIDDLE (lines ! i)")
      case True
      with inb "1.prems" have rec: "find_markers lines (i + 1) (Some i) baseIndex = (None, b', e')"
        by (subst (asm) find_markers.simps) simp
      then show ?thesis by (auto dest: find_markers_keeps_middle)
    next
      case False
      with inb "1.prems" "1.hyps" ji show ?thesis
        by (subst (asm) find_markers.simps) (fastforce split: if_splits)
    qed
  qed
qed

lemma parseConflictSection_Some:
  assumes "parseConflictSection lines s = Some c"
  shows "startLine c = s" and "s < endLine c" and "endLine c < length lines"
    and "CONFLICT_END (lines ! endLine c)"
    and "\<And>j. s < j \<Longrightarrow> j < endLine c \<Longrightarrow> \<not> CONFLICT_END (lines ! j)"
    and "\<exists>k. s < k \<and> k < endLine c \<and> CONFLICT_MIDDLE (lines ! k)"
proof -
  from assms obtain m b e where fm: "find_markers lines (s + 1) None None = (Some m, b, Some e)"
    and c: "startLine c = s" "endLine c = e"
    by (auto simp: parseConflictSection_def Let_def split: prod.splits option.splits)
  from find_markers_end [OF fm] have e: "s + 1 \<le> e" "e < length lines" "CONFLICT_END (lines ! e)"
    by simp_all
  from find_markers_middle_found [OF fm] have m: "s + 1 \<le> m" "m < e" "CONFLICT_MIDDLE (lines ! m)"
    by simp_all
  show "startLine c = s" by (fact c)
  show "s < endLine c" using e c by simp
  show "endLine c < length lines" using e c by simp
  show "CONFLICT_END (lines ! endLine c)" using e c by simp
  show "\<not> CONFLICT_END (lines ! j)" if "s < j" "j < endLine c" for j
    using find_markers_first_end [OF fm, of j] that c by simp
  show "\<exists>k. s < k \<and> k < endLine c \<and> CONFLICT_MIDDLE (lines ! k)"
    using m c by (intro exI [of _ m]) simp
qed

text \<open>The \<^verbatim>\<open>while\<close> loop of \<^verbatim>\<open>parseConflicts\<close>, from line \<open>i\<close> on; the list
  returned is what the loop pushes onto \<^verbatim>\<open>conflicts\<close> from there.\<close>

function parse_from :: "string list \<Rightarrow> nat \<Rightarrow> ConflictSection list" where
  "parse_from lines i =
     (if i < length lines then
        if CONFLICT_START (lines ! i) then
          (case parseConflictSection lines i of
             Some conflict \<Rightarrow> conflict # parse_from lines (endLine conflict + 1)
           | None \<Rightarrow> parse_from lines (i + 1))
        else parse_from lines (i + 1)
      else [])"
  by pat_completeness auto
termination
proof (relation "measure (\<lambda>(lines, i). length lines - i)")
  fix lines :: "string list" and i :: nat and conflict
  assume "i < length lines" and "parseConflictSection lines i = Some conflict"
  then show "((lines, endLine conflict + 1), lines, i) \<in> measure (\<lambda>(lines, i). length lines - i)"
    using parseConflictSection_Some(2) [of lines i conflict] by simp
qed auto

declare parse_from.simps [simp del]

definition parseConflicts :: "string \<Rightarrow> ConflictSection list" where
  "parseConflicts content = parse_from (split_lines content) 0"

subsection \<open>resolveConflicts\<close>

text \<open>\<^verbatim>\<open>lines.splice(start, deleteCount, ...items)\<close> for a start and a count that are
  not negative; JavaScript clamps both to the array, as \<^const>\<open>take\<close> and \<^const>\<open>drop\<close> do.\<close>

definition splice :: "'a list \<Rightarrow> nat \<Rightarrow> nat \<Rightarrow> 'a list \<Rightarrow> 'a list" where
  "splice xs start deleteCount items = take start xs @ items @ drop (start + deleteCount) xs"

text \<open>The body of the \<^verbatim>\<open>for\<close> loop, run over the conflicts in the order the loop
  visits them.  The resolver is a callback that may throw: it returns \<open>Inl\<close> of what it
  throws, and the exception leaves \<^verbatim>\<open>resolveConflicts\<close> as it is.\<close>

fun resolve_loop ::
  "(ConflictSection \<Rightarrow> 'e + string) \<Rightarrow> ConflictSection list \<Rightarrow> string list \<Rightarrow> 'e + string list"
where
  "resolve_loop resolver [] lines = Inr lines"
| "resolve_loop resolver (conflict # rest) lines =
     (case resolver conflict of
        Inl e \<Rightarrow> Inl e
      | Inr resolution \<Rightarrow>
          resolve_loop resolver rest
            (splice lines (startLine conflict) (endLine conflict - startLine conflict + 1)
               (split_lines resolution)))"

text \<open>The loop counts \<^verbatim>\<open>i\<close> down from the last conflict to the first.\<close>

definition resolveConflicts :: "string \<Rightarrow> (ConflictSection \<Rightarrow> 'e + string) \<Rightarrow> 'e + string" where
  "resolveConflicts content resolver =
     (let lines = split_lines content;
          conflicts = parseConflicts content
      in case resolve_loop resolver (rev conflicts) lines of
           Inl e \<Rightarrow> Inl e
         | Inr lines' \<Rightarrow> Inr (join_lines lines'))"

subsection \<open>Notions used to state the parser's properties\<close>

text \<open>The lines of a section, from its start marker to its end marker.\<close>

definition section_lines :: "string list \<Rightarrow> ConflictSection \<Rightarrow> string list" where
  "section_lines lines c = slice lines (startLine c) (endLine c + 1)"

text \<open>The marker lines of one kind in a text.\<close>

definition marker_lines :: "(string \<Rightarrow> bool) \<Rightarrow> string \<Rightarrow> string list" where
  "marker_lines marker content = filter marker (split_lines content)"

text \<open>What makes the code give a candidate up: no end marker after the start marker, or
  no middle marker between the start marker and the first end marker after it.\<close>

definition missing_middle_or_end :: "string list \<Rightarrow> nat \<Rightarrow> bool" where
  "missing_middle_or_end lines i =
     (case List.find (\<lambda>j. CONFLICT_END (lines ! j)) [i + 1 ..< length lines] of
        None \<Rightarrow> True
      | Some e \<Rightarrow> \<not> list_ex (\<lambda>j. CONFLICT_MIDDLE (lines ! j)) [i + 1 ..< e])"

text \<open>The specification's wording of the same: the middle or the end marker is missing
  before the end of the file \<^emph>\<open>or before a nested start marker\<close>.  The candidate's lines
  are cut at the next start marker; a middle marker followed by an end marker is looked
  for among them.\<close>

definition spec_missing_before_nested_start :: "string list \<Rightarrow> nat \<Rightarrow> bool" where
  "spec_missing_before_nested_start lines i =
     (case dropWhile (\<lambda>l. \<not> CONFLICT_MIDDLE l)
             (takeWhile (\<lambda>l. \<not> CONFLICT_START l) (drop (i + 1) lines)) of
        [] \<Rightarrow> True
      | _ # after_middle \<Rightarrow> \<not> list_ex CONFLICT_END after_middle)"

text \<open>The text that the specification describes: the lines before, between and after
  the sections as they are, each section replaced by the lines of its resolution.\<close>

fun rebuild ::
  "string list \<Rightarrow> nat \<Rightarrow> ConflictSection list \<Rightarrow> (ConflictSection \<Rightarrow> string) \<Rightarrow> string list"
where
  "rebuild lines pos [] f = drop pos lines"
| "rebuild lines pos (c # cs) f =
     slice lines pos (startLine c) @ split_lines (f c) @ rebuild lines (endLine c + 1) cs f"

section \<open>JavaScript values and built-ins (merge-resolver.ts)\<close>

text \<open>
  The values that the merge handles.  The first six constructors are what
  \<^verbatim>\<open>JSON.parse\<close> returns: a number is its exact value, an object is the list of its own
  properties in the order \<^verbatim>\<open>Object.entries\<close> lists them, and its prototype is
  \<^verbatim>\<open>Object.prototype\<close>.  The loop of \<^verbatim>\<open>deepMerge\<close> assigns with \<^verbatim>\<open>result[key] = v\<close>,
  and for the key \<^verbatim>\<open>__proto__\<close> such an assignment can reach the setter of
  \<^verbatim>\<open>Object.prototype\<close>, which replaces the prototype of the object instead of creating
  a property.  So there are four more kinds of value: \<open>JWith props proto\<close> is an object
  with the own properties \<open>props\<close> whose prototype has been set to \<open>proto\<close> (an object, an
  array, or \<^verbatim>\<open>null\<close>); \<open>JObjectPrototype\<close> and \<open>JArrayPrototype\<close> are the two built-in
  prototypes, which a read of \<^verbatim>\<open>__proto__\<close> returns; \<open>JFun name\<close> is the built-in method
  of that name, which a read of an inherited method returns.  \<^verbatim>\<open>undefined\<close>, where it
  can occur, is \<^const>\<open>None\<close>.
\<close>

datatype json =
    JNull
  | JBool bool
  | JNum rat
  | JStr string
  | JArr "json list"
  | JObj "(string \<times> json) list"
  | JWith "(string \<times> json) list" json
  | JFun string
  | JObjectPrototype
  | JArrayPrototype

text \<open>What a \<^verbatim>\<open>throw\<close> carries; \<^verbatim>\<open>error.message\<close> reads the text.\<close>

datatype js_error = TypeError string | SyntaxError string | IOError string

fun message :: "js_error \<Rightarrow> string" where
  "message (TypeError m) = m"
| "message (SyntaxError m) = m"
| "message (IOError m) = m"

text \<open>The built-in functions that the code calls and that are not code of the
  repository.  \<^verbatim>\<open>JSON.parse\<close> returns the message of its \<^verbatim>\<open>SyntaxError\<close> on the left;
  \<open>JSON_stringify\<close> is \<^verbatim>\<open>JSON.stringify(value, null, 10)\<close>; \<open>Number_toString\<close> is
  \<^verbatim>\<open>String(n)\<close> for a number; \<open>Object_toString\<close> is \<^verbatim>\<open>String(v)\<close> for an array, an object
  or a function, which calls the \<^verbatim>\<open>toString\<close> that the value inherits and throws when
  there is none to call; \<open>ToNumber\<close> is the conversion that \<^verbatim>\<open>>\<close> applies to an operand
  that is a string, an array, an object or a function (\<^const>\<open>None\<close> for \<^verbatim>\<open>NaN\<close>), which
  can throw in the same way.\<close>

record platform =
  JSON_parse :: "string \<Rightarrow> string + json"
  JSON_stringify :: "json \<Rightarrow> string"
  Number_toString :: "rat \<Rightarrow> string"
  Object_toString :: "json \<Rightarrow> js_error + string"
  ToNumber :: "json \<Rightarrow> js_error + rat option"

text \<open>Truthiness, \<^verbatim>\<open>typeof v === "object"\<close>, and the test
  \<^verbatim>\<open>value && typeof value === "object" && !Array.isArray(value)\<close>.\<close>

fun truthy :: "json \<Rightarrow> bool" where
  "truthy JNull = False"
| "truthy (JBool b) = b"
| "truthy (JNum r) = (r \<noteq> 0)"
| "truthy (JStr s) = (s \<noteq> [])"
| "truthy v = True"

fun truthy_opt :: "json option \<Rightarrow> bool" where
  "truthy_opt None = False"
| "truthy_opt (Some v) = truthy v"

fun typeof_object :: "json \<Rightarrow> bool" where
  "typeof_object JNull = True"
| "typeof_object (JArr xs) = True"
| "typeof_object (JObj kvs) = True"
| "typeof_object (JWith kvs proto) = True"
| "typeof_object JObjectPrototype = True"
| "typeof_object JArrayPrototype = True"
| "typeof_object v = False"

fun is_plain_object :: "json \<Rightarrow> bool" where
  "is_plain_object (JObj kvs) = True"
| "is_plain_object (JWith kvs proto) = True"
| "is_plain_object JObjectPrototype = True"
| "is_plain_object v = False"

text \<open>Decimal digits of a natural number: the template literals print sizes and
  counts, and an array's indices are its property names.\<close>

function show_nat :: "nat \<Rightarrow> string" where
  "show_nat n =
     (if n < 10 then [''0123456789'' ! n]
      else show_nat (n div 10) @ [''0123456789'' ! (n mod 10)])"
  by pat_completeness auto
termination
  by (relation "measure id") auto

declare show_nat.simps [simp del]

definition indexed :: "json list \<Rightarrow> (string \<times> json) list" where
  "indexed xs = map (\<lambda>i. (show_nat i, xs ! i)) [0 ..< length xs]"

definition chars_of :: "string \<Rightarrow> json list" where
  "chars_of s = map (\<lambda>c. JStr [c]) s"

text \<open>The own enumerable properties of a value, in the order in which
  \<^verbatim>\<open>Object.entries\<close> and the spread \<^verbatim>\<open>{ ...v }\<close> go through them: those of an object;
  the elements of an array and the characters of a string under their indices; none
  for a number, a boolean, \<^verbatim>\<open>null\<close>, a built-in method or a built-in prototype (whose
  properties are not enumerable).\<close>

fun own_properties :: "json \<Rightarrow> (string \<times> json) list" where
  "own_properties (JObj kvs) = kvs"
| "own_properties (JWith kvs proto) = kvs"
| "own_properties (JArr xs) = indexed xs"
| "own_properties (JStr s) = indexed (chars_of s)"
| "own_properties v = []"

text \<open>\<^verbatim>\<open>{ ...(target || {}) }\<close>.\<close>

fun spread_object :: "json option \<Rightarrow> (string \<times> json) list" where
  "spread_object None = []"
| "spread_object (Some v) = own_properties v"

text \<open>\<^verbatim>\<open>[...(target || [])]\<close>: a truthy target that is not iterable throws.\<close>

fun spread_array :: "json option \<Rightarrow> js_error + json list" where
  "spread_array None = Inr []"
| "spread_array (Some (JArr xs)) = Inr xs"
| "spread_array (Some (JStr s)) = Inr (chars_of s)"
| "spread_array (Some JArrayPrototype) = Inr []"
| "spread_array (Some v) =
     (if truthy v then Inl (TypeError ''target is not iterable'') else Inr [])"

text \<open>\<^verbatim>\<open>Object.entries(v)\<close> for a value with \<^verbatim>\<open>typeof v === "object"\<close>.\<close>

fun Object_entries :: "json \<Rightarrow> js_error + (string \<times> json) list" where
  "Object_entries JNull = Inl (TypeError ''Cannot convert undefined or null to object'')"
| "Object_entries v = Inr (own_properties v)"

subsection \<open>Own properties and their order\<close>

text \<open>
  A property name is an array index when it is the decimal spelling, without a sign or
  a leading zero, of a whole number up to \<open>2\<^sup>3\<^sup>2 - 2\<close>.  An object lists its own
  properties with the array indices first, in rising order, and the other names after
  them in the order in which they were created.
\<close>

definition is_digit :: "char \<Rightarrow> bool" where
  "is_digit c \<longleftrightarrow> c \<in> set ''0123456789''"

definition digit_value :: "char \<Rightarrow> nat" where
  "digit_value c = length (takeWhile (\<lambda>d. d \<noteq> c) ''0123456789'')"

definition nat_of_digits :: "string \<Rightarrow> nat" where
  "nat_of_digits ds = foldl (\<lambda>n c. 10 * n + digit_value c) 0 ds"

text \<open>Two digit strings of one length, compared as numbers.\<close>

fun digits_le :: "string \<Rightarrow> string \<Rightarrow> bool" where
  "digits_le (a # as) (b # bs) =
     (digit_value a < digit_value b \<or> (digit_value a = digit_value b \<and> digits_le as bs))"
| "digits_le as bs = True"

definition array_index :: "string \<Rightarrow> nat option" where
  "array_index k =
     (if k \<noteq> [] \<and> list_all is_digit k \<and> (k = ''0'' \<or> hd k \<noteq> CHR ''0'') \<and>
         (length k < 10 \<or> (length k = 10 \<and> digits_le k ''4294967294''))
      then Some (nat_of_digits k) else None)"

text \<open>A new own property takes its place in that order.\<close>

fun insert_own :: "string \<Rightarrow> json \<Rightarrow> (string \<times> json) list \<Rightarrow> (string \<times> json) list" where
  "insert_own k v [] = [(k, v)]"
| "insert_own k v ((k', v') # rest) =
     (case array_index k of
        None \<Rightarrow> (k', v') # insert_own k v rest
      | Some i \<Rightarrow>
          (case array_index k' of
             None \<Rightarrow> (k, v) # (k', v') # rest
           | Some j \<Rightarrow> if j < i then (k', v') # insert_own k v rest else (k, v) # (k', v') # rest))"

text \<open>Defining an own property (what \<^verbatim>\<open>JSON.parse\<close> and a spread do for each key,
  \<^verbatim>\<open>__proto__\<close> included): the value of a property already there is replaced in place.\<close>

definition define_own :: "string \<Rightarrow> json \<Rightarrow> (string \<times> json) list \<Rightarrow> (string \<times> json) list" where
  "define_own k v props =
     (if map_of props k \<noteq> None then AList.update k v props else insert_own k v props)"

subsection \<open>The prototype chain\<close>

text \<open>
  The string-keyed properties of the two built-in prototypes.  All of them are methods,
  but for the accessor \<^verbatim>\<open>__proto__\<close> of \<^verbatim>\<open>Object.prototype\<close> (named apart below) and the
  \<^verbatim>\<open>length\<close> of \<^verbatim>\<open>Array.prototype\<close>, which no lookup reaches because every array has a
  \<^verbatim>\<open>length\<close> of its own.  The list for \<^verbatim>\<open>Array.prototype\<close> is that of ECMAScript 2023.
\<close>

definition Object_prototype_methods :: "string list" where
  "Object_prototype_methods =
     [''constructor'', ''__defineGetter__'', ''__defineSetter__'', ''hasOwnProperty'',
      ''__lookupGetter__'', ''__lookupSetter__'', ''isPrototypeOf'', ''propertyIsEnumerable'',
      ''toString'', ''valueOf'', ''toLocaleString'']"

definition Array_prototype_methods :: "string list" where
  "Array_prototype_methods =
     [''constructor'', ''at'', ''concat'', ''copyWithin'', ''fill'', ''find'', ''findIndex'',
      ''findLast'', ''findLastIndex'', ''lastIndexOf'', ''pop'', ''push'', ''reverse'', ''shift'',
      ''unshift'', ''slice'', ''sort'', ''splice'', ''includes'', ''indexOf'', ''join'', ''keys'',
      ''entries'', ''values'', ''forEach'', ''filter'', ''flat'', ''flatMap'', ''map'', ''every'',
      ''some'', ''reduce'', ''reduceRight'', ''toLocaleString'', ''toString'', ''toReversed'',
      ''toSorted'', ''toSpliced'', ''with'']"

text \<open>What looking a name up finds: a data property with its value, a built-in
  method, the accessor \<^verbatim>\<open>__proto__\<close>, or nothing.\<close>

datatype property = Data json | Method string | ProtoAccessor | NoProperty

definition in_Object_prototype :: "string \<Rightarrow> property" where
  "in_Object_prototype k =
     (if k = ''__proto__'' then ProtoAccessor
      else if k \<in> set Object_prototype_methods then Method k
      else NoProperty)"

definition in_Array_prototype :: "string \<Rightarrow> property" where
  "in_Array_prototype k =
     (if k \<in> set Array_prototype_methods then Method k else in_Object_prototype k)"

text \<open>
  The lookup of a name in an object and then along its prototype chain.  A parsed
  object inherits from \<^verbatim>\<open>Object.prototype\<close>, an array from \<^verbatim>\<open>Array.prototype\<close> and that
  from \<^verbatim>\<open>Object.prototype\<close>; a chain whose prototype was set to \<^verbatim>\<open>null\<close> ends there.
  The other values (primitives and methods) are never looked into by the code: it reads
  properties only off values with \<^verbatim>\<open>typeof v === "object"\<close>.
\<close>

fun lookup :: "json \<Rightarrow> string \<Rightarrow> property" where
  "lookup (JObj kvs) k =
     (case map_of kvs k of Some v \<Rightarrow> Data v | None \<Rightarrow> in_Object_prototype k)"
| "lookup (JWith kvs proto) k =
     (case map_of kvs k of Some v \<Rightarrow> Data v | None \<Rightarrow> lookup proto k)"
| "lookup (JArr xs) k =
     (case array_index k of
        Some i \<Rightarrow> if i < length xs then Data (xs ! i) else in_Array_prototype k
      | None \<Rightarrow>
          if k = ''length'' then Data (JNum (of_nat (length xs))) else in_Array_prototype k)"
| "lookup JObjectPrototype k = in_Object_prototype k"
| "lookup JArrayPrototype k =
     (if k = ''length'' then Data (JNum 0) else in_Array_prototype k)"
| "lookup v k = NoProperty"

text \<open>The prototype of an object, which the getter of \<^verbatim>\<open>__proto__\<close> returns.\<close>

fun prototype_of :: "json \<Rightarrow> json" where
  "prototype_of (JObj kvs) = JObjectPrototype"
| "prototype_of (JWith kvs proto) = proto"
| "prototype_of (JArr xs) = JArrayPrototype"
| "prototype_of JArrayPrototype = JObjectPrototype"
| "prototype_of v = JNull"

text \<open>\<^verbatim>\<open>v[k]\<close> and \<^verbatim>\<open>k in v\<close> for an object or an array \<open>v\<close>.\<close>

definition get_property :: "json \<Rightarrow> string \<Rightarrow> json option" where
  "get_property v k =
     (case lookup v k of
        Data x \<Rightarrow> Some x
      | Method name \<Rightarrow> Some (JFun name)
      | ProtoAccessor \<Rightarrow> Some (prototype_of v)
      | NoProperty \<Rightarrow> None)"

definition has_property :: "json \<Rightarrow> string \<Rightarrow> bool" where
  "has_property v k \<longleftrightarrow> lookup v k \<noteq> NoProperty"

text \<open>
  An object under construction: its own properties and its prototype.  A fresh object
  literal has the prototype \<^verbatim>\<open>Object.prototype\<close>; \<open>object_value\<close> is the object as a
  value.
\<close>

type_synonym object_state = "(string \<times> json) list \<times> json"

definition object_literal :: "(string \<times> json) list \<Rightarrow> object_state" where
  "object_literal props = (props, JObjectPrototype)"

definition object_value :: "object_state \<Rightarrow> json" where
  "object_value st = (if snd st = JObjectPrototype then JObj (fst st) else JWith (fst st) (snd st))"

text \<open>
  \<^verbatim>\<open>result[key] = v\<close> on an object.  An own property takes the value.  Otherwise the
  name is looked up along the chain: when that finds the accessor \<^verbatim>\<open>__proto__\<close>, its
  setter runs, which makes \<open>v\<close> the prototype of the object if \<open>v\<close> is an object, an
  array, a function or \<^verbatim>\<open>null\<close>, and does nothing for another \<open>v\<close>; in both cases no
  property is created.  When the lookup finds an inherited data property (all the ones
  met here are writable) or nothing, a new own property is created.
\<close>

definition accepted_as_prototype :: "json \<Rightarrow> bool" where
  "accepted_as_prototype v \<longleftrightarrow> typeof_object v \<or> (case v of JFun name \<Rightarrow> True | _ \<Rightarrow> False)"

definition assign :: "object_state \<Rightarrow> string \<Rightarrow> json \<Rightarrow> object_state" where
  "assign st k v =
     (if map_of (fst st) k \<noteq> None then (AList.update k v (fst st), snd st)
      else (case lookup (snd st) k of
              ProtoAccessor \<Rightarrow> (fst st, if accepted_as_prototype v then v else snd st)
            | _ \<Rightarrow> (insert_own k v (fst st), snd st)))"

text \<open>\<^verbatim>\<open>result[key]\<close> and \<^verbatim>\<open>key in result\<close> on an object under construction.\<close>

definition read :: "object_state \<Rightarrow> string \<Rightarrow> json option" where
  "read st k = get_property (JWith (fst st) (snd st)) k"

definition has :: "object_state \<Rightarrow> string \<Rightarrow> bool" where
  "has st k \<longleftrightarrow> has_property (JWith (fst st) (snd st)) k"

text \<open>\<^verbatim>\<open>v.name\<close> for a value with \<^verbatim>\<open>typeof v === "object"\<close>: reading a property of
  \<^verbatim>\<open>null\<close> throws.\<close>

fun member :: "json \<Rightarrow> string \<Rightarrow> js_error + json option" where
  "member JNull name =
     Inl (TypeError (''Cannot read properties of null (reading '' @ [CHR 0x27] @ name @ [CHR 0x27] @ '')''))"
| "member v name = Inr (get_property v name)"

text \<open>\<^verbatim>\<open>v.length\<close> of a truthy value that is the value of a data property: the length
  of a string, what the lookup gives for an object or an array, \<^verbatim>\<open>undefined\<close> for a
  number or a boolean.\<close>

fun js_length :: "json \<Rightarrow> json option" where
  "js_length (JStr s) = Some (JNum (of_nat (length s)))"
| "js_length v = get_property v ''length''"

text \<open>\<^verbatim>\<open>n > x\<close> for a number \<open>n\<close> that is a length: false when \<open>x\<close> is
  \<^verbatim>\<open>undefined\<close> or converts to \<^verbatim>\<open>NaN\<close>.\<close>

fun to_number :: "platform \<Rightarrow> json \<Rightarrow> js_error + rat option" where
  "to_number P (JNum r) = Inr (Some r)"
| "to_number P JNull = Inr (Some 0)"
| "to_number P (JBool b) = Inr (Some (if b then 1 else 0))"
| "to_number P v = ToNumber P v"

definition length_gt :: "platform \<Rightarrow> nat \<Rightarrow> json option \<Rightarrow> js_error + bool" where
  "length_gt P n x =
     (case x of
        None \<Rightarrow> Inr False
      | Some v \<Rightarrow>
          (case to_number P v of
             Inl e \<Rightarrow> Inl e
           | Inr None \<Rightarrow> Inr False
           | Inr (Some r) \<Rightarrow> Inr (r < of_nat n)))"

text \<open>\<^verbatim>\<open>a !== b\<close> for a value \<open>a\<close> found under the target and a value \<open>b\<close> found under
  the source: an object, an array or a function is never the same object as one found
  elsewhere.\<close>

fun strict_neq :: "json \<Rightarrow> json \<Rightarrow> bool" where
  "strict_neq JNull b = (b \<noteq> JNull)"
| "strict_neq (JBool x) b = (b \<noteq> JBool x)"
| "strict_neq (JNum x) b = (b \<noteq> JNum x)"
| "strict_neq (JStr x) b = (b \<noteq> JStr x)"
| "strict_neq a b = True"

text \<open>The white space of \<^verbatim>\<open>\s\<close> and of \<^verbatim>\<open>trim()\<close> below code unit 256, and the
  word characters of \<^verbatim>\<open>\w\<close>.\<close>

definition is_space :: "char \<Rightarrow> bool" where
  "is_space c \<longleftrightarrow>
     c \<in> set [CHR 0x09, CHR 0x0A, CHR 0x0B, CHR 0x0C, CHR 0x0D, CHR 0x20, CHR 0xA0]"

definition is_word :: "char \<Rightarrow> bool" where
  "is_word c \<longleftrightarrow>
     (let n = of_char c :: nat
      in (48 \<le> n \<and> n \<le> 57) \<or> (65 \<le> n \<and> n \<le> 90) \<or> (97 \<le> n \<and> n \<le> 122) \<or> n = 95)"

definition trim :: "string \<Rightarrow> string" where
  "trim s = rev (dropWhile is_space (rev (dropWhile is_space s)))"

definition startsWith :: "string \<Rightarrow> string \<Rightarrow> bool" where
  "startsWith s prefix \<longleftrightarrow> take (length prefix) s = prefix"

definition endsWith :: "string \<Rightarrow> string \<Rightarrow> bool" where
  "endsWith s suffix \<longleftrightarrow> length suffix \<le> length s \<and> drop (length s - length suffix) s = suffix"

fun join_with :: "string \<Rightarrow> string list \<Rightarrow> string" where
  "join_with sep [] = []"
| "join_with sep [s] = s"
| "join_with sep (s # ss) = s @ sep @ join_with sep ss"

text \<open>\<^verbatim>\<open>String(v)\<close>.\<close>

fun js_String :: "platform \<Rightarrow> json \<Rightarrow> js_error + string" where
  "js_String P JNull = Inr ''null''"
| "js_String P (JBool b) = Inr (if b then ''true'' else ''false'')"
| "js_String P (JNum r) = Inr (Number_toString P r)"
| "js_String P (JStr s) = Inr s"
| "js_String P v = Object_toString P v"

section \<open>The merge engine\<close>

subsection \<open>deepMerge\<close>

text \<open>The callback \<^verbatim>\<open>(key, target, source) => any\<close>; it may throw.\<close>

type_synonym resolver = "string \<Rightarrow> json \<Rightarrow> json \<Rightarrow> js_error + json"

text \<open>\<^verbatim>\<open>result[i]\<close> and \<^verbatim>\<open>result[i] = v\<close> on an array.  The loop over an array's
  entries meets the indices in order, so an index is never beyond the length.\<close>

definition array_get :: "json list \<Rightarrow> nat \<Rightarrow> json option" where
  "array_get xs i = (if i < length xs then Some (xs ! i) else None)"

definition array_set :: "json list \<Rightarrow> nat \<Rightarrow> json \<Rightarrow> json list" where
  "array_set xs i v = (if i < length xs then xs[i := v] else xs @ [v])"

text \<open>
  \<open>deepMerge\<close> with its loop over \<^verbatim>\<open>Object.entries(source)\<close>: \<open>merge_entries\<close> when the
  result is an object, \<open>merge_items\<close> (with the index reached) when it is an array.  A
  source that is falsy or not of type \<^verbatim>\<open>"object"\<close> is returned as it is.  The result of
  the object case starts as the object literal \<^verbatim>\<open>{ ...(target || {}) }\<close>;
  \<^verbatim>\<open>result[key]\<close> is \<^const>\<open>read\<close>, \<^verbatim>\<open>key in result\<close> is \<^const>\<open>has\<close> and
  \<^verbatim>\<open>result[key] = v\<close> is \<^const>\<open>assign\<close>.
\<close>

fun deepMerge :: "resolver option \<Rightarrow> json option \<Rightarrow> json \<Rightarrow> js_error + json"
and merge_entries ::
  "resolver option \<Rightarrow> (string \<times> json) list \<Rightarrow> object_state \<Rightarrow> js_error + object_state"
and merge_items ::
  "resolver option \<Rightarrow> nat \<Rightarrow> json list \<Rightarrow> json list \<Rightarrow> js_error + json list"
where
  "deepMerge resolver target (JObj kvs) =
     (case merge_entries resolver kvs (object_literal (spread_object target)) of
        Inl e \<Rightarrow> Inl e
      | Inr result \<Rightarrow> Inr (object_value result))"
| "deepMerge resolver target (JWith kvs proto) =
     (case merge_entries resolver kvs (object_literal (spread_object target)) of
        Inl e \<Rightarrow> Inl e
      | Inr result \<Rightarrow> Inr (object_value result))"
| "deepMerge resolver target JObjectPrototype =
     Inr (object_value (object_literal (spread_object target)))"
| "deepMerge resolver target (JArr xs) =
     (case spread_array target of
        Inl e \<Rightarrow> Inl e
      | Inr result0 \<Rightarrow>
          (case merge_items resolver 0 xs result0 of
             Inl e \<Rightarrow> Inl e
           | Inr result \<Rightarrow> Inr (JArr result)))"
| "deepMerge resolver target JArrayPrototype =
     (case spread_array target of
        Inl e \<Rightarrow> Inl e
      | Inr result \<Rightarrow> Inr (JArr result))"
| "deepMerge resolver target source = Inr source"
| "merge_entries resolver [] result = Inr result"
| "merge_entries resolver ((key, value) # rest) result =
     (if is_plain_object value then
        (case deepMerge resolver (read result key) value of
           Inl e \<Rightarrow> Inl e
         | Inr v \<Rightarrow> merge_entries resolver rest (assign result key v))
      else if resolver \<noteq> None \<and> has result key then
        (case the resolver key (the (read result key)) value of
           Inl e \<Rightarrow> Inl e
         | Inr v \<Rightarrow> merge_entries resolver rest (assign result key v))
      else merge_entries resolver rest (assign result key value))"
| "merge_items resolver i [] result = Inr result"
| "merge_items resolver i (value # rest) result =
     (if is_plain_object value then
        (case deepMerge resolver (array_get result i) value of
           Inl e \<Rightarrow> Inl e
         | Inr v \<Rightarrow> merge_items resolver (i + 1) rest (array_set result i v))
      else if resolver \<noteq> None \<and> i < length result then
        (case the resolver (show_nat i) (result ! i) value of
           Inl e \<Rightarrow> Inl e
         | Inr v \<Rightarrow> merge_items resolver (i + 1) rest (array_set result i v))
      else merge_items resolver (i + 1) rest (array_set result i value))"

subsection \<open>The two callbacks\<close>

text \<open>The condition \<^verbatim>\<open>ours.content && theirs.content && typeof theirs.content ===
  "string"\<close> of the callback of \<^verbatim>\<open>smartResolveMeta\<close>, with the two contents when it
  holds.  An \<^verbatim>\<open>&&\<close> chain stops at its first falsy operand, so \<^verbatim>\<open>theirs.content\<close> is
  read only when \<^verbatim>\<open>ours.content\<close> is truthy; reading a property of \<^verbatim>\<open>null\<close>
  throws.\<close>

definition both_contents :: "json \<Rightarrow> json \<Rightarrow> js_error + (json \<times> string) option" where
  "both_contents ours_value theirs_value =
     (case member ours_value ''content'' of
        Inl e \<Rightarrow> Inl e
      | Inr None \<Rightarrow> Inr None
      | Inr (Some oc) \<Rightarrow>
          if \<not> truthy oc then Inr None
          else (case member theirs_value ''content'' of
                  Inl e \<Rightarrow> Inl e
                | Inr (Some (JStr tc)) \<Rightarrow> Inr (if tc \<noteq> [] then Some (oc, tc) else None)
                | Inr _ \<Rightarrow> Inr None))"

text \<open>The condition \<^verbatim>\<open>ours.hash && theirs.hash && ours.hash !== theirs.hash\<close>.\<close>

definition hashes_differ :: "json \<Rightarrow> json \<Rightarrow> js_error + bool" where
  "hashes_differ ours_value theirs_value =
     (case member ours_value ''hash'' of
        Inl e \<Rightarrow> Inl e
      | Inr None \<Rightarrow> Inr False
      | Inr (Some oh) \<Rightarrow>
          if \<not> truthy oh then Inr False
          else (case member theirs_value ''hash'' of
                  Inl e \<Rightarrow> Inl e
                | Inr None \<Rightarrow> Inr False
                | Inr (Some th) \<Rightarrow> Inr (truthy th \<and> strict_neq oh th)))"

definition metaResolver :: "platform \<Rightarrow> resolver" where
  "metaResolver P key ours_value theirs_value =
     (if typeof_object ours_value \<and> typeof_object theirs_value then
        (case both_contents ours_value theirs_value of
           Inl e \<Rightarrow> Inl e
         | Inr (Some (oc, tc)) \<Rightarrow>
             (case length_gt P (length tc) (js_length oc) of
                Inl e \<Rightarrow> Inl e
              | Inr longer \<Rightarrow> Inr (if longer then theirs_value else ours_value))
         | Inr None \<Rightarrow>
             (case hashes_differ ours_value theirs_value of
                Inl e \<Rightarrow> Inl e
              | Inr differ \<Rightarrow> if differ then Inr theirs_value else Inr theirs_value))
      else Inr theirs_value)"

text \<open>The callback of \<^verbatim>\<open>smartResolveDictionary\<close>; \<open>merge_locales\<close> is its loop over
  the entries of \<^verbatim>\<open>theirs\<close>, on the object literal \<^verbatim>\<open>{ ...ours }\<close>.  In the condition,
  \<^verbatim>\<open>String(translation)\<close> is taken before \<^verbatim>\<open>String(mergedContent[locale])\<close>, and either
  may throw.\<close>

fun merge_locales ::
  "platform \<Rightarrow> (string \<times> json) list \<Rightarrow> object_state \<Rightarrow> js_error + object_state" where
  "merge_locales P [] mergedContent = Inr mergedContent"
| "merge_locales P ((locale, translation) # rest) mergedContent =
     (if \<not> truthy_opt (read mergedContent locale) then
        merge_locales P rest (assign mergedContent locale translation)
      else if truthy translation \<and> (case translation of JStr t \<Rightarrow> True | _ \<Rightarrow> False) then
        (case js_String P translation of
           Inl e \<Rightarrow> Inl e
         | Inr theirs_text \<Rightarrow>
             (case js_String P (the (read mergedContent locale)) of
                Inl e \<Rightarrow> Inl e
              | Inr ours_text \<Rightarrow>
                  if length (trim ours_text) < length (trim theirs_text)
                  then merge_locales P rest (assign mergedContent locale translation)
                  else merge_locales P rest mergedContent))
      else merge_locales P rest mergedContent)"

definition dictResolver :: "platform \<Rightarrow> resolver" where
  "dictResolver P key ours_value theirs_value =
     (if key = ''content'' \<and> typeof_object ours_value \<and> typeof_object theirs_value then
        (case Object_entries theirs_value of
           Inl e \<Rightarrow> Inl e
         | Inr entries \<Rightarrow>
             (case merge_locales P entries (object_literal (spread_object (Some ours_value))) of
                Inl e \<Rightarrow> Inl e
              | Inr mergedContent \<Rightarrow> Inr (object_value mergedContent)))
      else Inr theirs_value)"

subsection \<open>Reading and writing fragments\<close>

text \<open>\<^verbatim>\<open>fragment.split(/\n/)\<close>.\<close>

fun split_LF :: "string \<Rightarrow> string list" where
  "split_LF [] = [[]]"
| "split_LF (c # cs) =
     (if c = LF then [] # split_LF cs
      else (case split_LF cs of
              [] \<Rightarrow> [[c]]
            | l # ls \<Rightarrow> (c # l) # ls))"

text \<open>
  \<^verbatim>\<open>/"([^"]+)"\s*:\s*(.+)/\<close> tried at the head of a string: a quoted, non-empty key
  without quotes in it, a colon with optional white space around it, and a value that
  runs up to the next line terminator.  When only white space follows the colon, the
  value is the last of these characters that the dot accepts (the greedy \<^verbatim>\<open>\s*\<close>
  gives it back); on a trimmed line this case does not arise.
\<close>

definition match_value :: "string \<Rightarrow> string option" where
  "match_value s =
     (let rest = dropWhile is_space s
      in if rest \<noteq> [] then Some (takeWhile (\<lambda>c. c \<noteq> LF \<and> c \<noteq> CR) rest)
         else (case filter (\<lambda>c. c \<noteq> LF \<and> c \<noteq> CR) s of
                 [] \<Rightarrow> None
               | cs \<Rightarrow> Some [last cs]))"

definition match_here :: "string \<Rightarrow> (string \<times> string) option" where
  "match_here s =
     (case s of
        [] \<Rightarrow> None
      | c # rest \<Rightarrow>
          if c \<noteq> CHR 0x22 then None
          else (let k = takeWhile (\<lambda>c. c \<noteq> CHR 0x22) rest;
                    after_key = dropWhile (\<lambda>c. c \<noteq> CHR 0x22) rest
                in if k = [] \<or> after_key = [] then None
                   else (case dropWhile is_space (tl after_key) of
                           [] \<Rightarrow> None
                         | d # after_colon \<Rightarrow>
                             if d \<noteq> CHR '':'' then None
                             else (case match_value after_colon of
                                     None \<Rightarrow> None
                                   | Some v \<Rightarrow> Some (k, v)))))"

text \<open>\<^verbatim>\<open>trimmed.match(...)\<close>: the first position of the string where the pattern
  matches.\<close>

fun match_key_value :: "string \<Rightarrow> (string \<times> string) option" where
  "match_key_value [] = None"
| "match_key_value (c # cs) =
     (case match_here (c # cs) of
        Some m \<Rightarrow> Some m
      | None \<Rightarrow> match_key_value cs)"

text \<open>\<^verbatim>\<open>.replace(/^["']|["']$/g, "")\<close> and \<^verbatim>\<open>.replace(/\\"/g, '"')\<close>.\<close>

definition is_quote :: "char \<Rightarrow> bool" where
  "is_quote c \<longleftrightarrow> c = CHR 0x22 \<or> c = CHR 0x27"

definition strip_quotes :: "string \<Rightarrow> string" where
  "strip_quotes s =
     (let s1 = (if s \<noteq> [] \<and> is_quote (hd s) then tl s else s)
      in if s1 \<noteq> [] \<and> is_quote (last s1) then butlast s1 else s1)"

fun unescape_quotes :: "string \<Rightarrow> string" where
  "unescape_quotes (c # d # cs) =
     (if c = CHR 0x5C \<and> d = CHR 0x22 then CHR 0x22 # unescape_quotes cs
      else c # unescape_quotes (d # cs))"
| "unescape_quotes cs = cs"

text \<open>One turn of the loop over the lines in the \<^verbatim>\<open>catch\<close> branch of
  \<^verbatim>\<open>parseJSONFragment\<close>, on the object \<^verbatim>\<open>result\<close> under construction.\<close>

definition line_entry :: "string \<Rightarrow> (string \<times> string) option" where
  "line_entry line =
     (let trimmed = trim line
      in if CHR '':'' \<in> set trimmed then match_key_value trimmed else None)"

definition line_value :: "platform \<Rightarrow> string \<Rightarrow> json" where
  "line_value P v =
     (case JSON_parse P v of
        Inr j \<Rightarrow> j
      | Inl _ \<Rightarrow> JStr (unescape_quotes (strip_quotes v)))"

definition key_value_line :: "platform \<Rightarrow> string \<Rightarrow> object_state \<Rightarrow> object_state" where
  "key_value_line P line result =
     (case line_entry line of
        None \<Rightarrow> result
      | Some (k, v) \<Rightarrow> assign result k (line_value P v))"

text \<open>The \<^verbatim>\<open>try\<close> block of \<^verbatim>\<open>parseJSONFragment\<close>, and the function: when
  \<^verbatim>\<open>JSON.parse\<close> throws, the lines are read one by one, and the result is the object
  built if it has a property of its own, \<^verbatim>\<open>null\<close> if not.\<close>

definition parse_whole :: "platform \<Rightarrow> string \<Rightarrow> string + json" where
  "parse_whole P fragment =
     (let trimmed = trim fragment
      in if startsWith trimmed ''{'' \<and> endsWith trimmed ''}'' then JSON_parse P trimmed
         else JSON_parse P (''{'' @ trimmed @ ''}''))"

definition parse_lines :: "platform \<Rightarrow> string \<Rightarrow> object_state" where
  "parse_lines P fragment = fold (key_value_line P) (split_LF fragment) (object_literal [])"

definition parseJSONFragment :: "platform \<Rightarrow> string \<Rightarrow> json" where
  "parseJSONFragment P fragment =
     (case parse_whole P fragment of
        Inr v \<Rightarrow> v
      | Inl _ \<Rightarrow>
          (let result = parse_lines P fragment
           in if 0 < length (fst result) then object_value result else JNull))"

text \<open>The replacements of \<^verbatim>\<open>parseJSFragment\<close>:
  \<^verbatim>\<open>/(\w+):/g\<close> to \<^verbatim>\<open>"$1":\<close> (the word run read so far is carried along),
  \<^verbatim>\<open>/,\s*\n\s*}/g\<close> to \<^verbatim>\<open>}\<close> and the same for \<^verbatim>\<open>]\<close> (a comma, white space with
  a line feed in it, the closing character), and \<^verbatim>\<open>/;$/g\<close> to nothing.\<close>

fun quote_keys_from :: "string \<Rightarrow> string \<Rightarrow> string" where
  "quote_keys_from word [] = word"
| "quote_keys_from word (c # cs) =
     (if is_word c then quote_keys_from (word @ [c]) cs
      else if c = CHR '':'' \<and> word \<noteq> [] then
        CHR 0x22 # word @ CHR 0x22 # CHR '':'' # quote_keys_from [] cs
      else word @ c # quote_keys_from [] cs)"

definition quote_keys :: "string \<Rightarrow> string" where
  "quote_keys s = quote_keys_from [] s"

function drop_trailing_commas :: "char \<Rightarrow> string \<Rightarrow> string" where
  "drop_trailing_commas closing [] = []"
| "drop_trailing_commas closing (c # cs) =
     (if c = CHR '','' \<and> LF \<in> set (takeWhile is_space cs) \<and>
         (case dropWhile is_space cs of [] \<Rightarrow> False | d # _ \<Rightarrow> d = closing)
      then closing # drop_trailing_commas closing (tl (dropWhile is_space cs))
      else c # drop_trailing_commas closing cs)"
  by pat_completeness auto
termination
proof (relation "measure (\<lambda>(closing, s). length s)")
  fix closing c :: char and cs :: string
  have "length (tl (dropWhile is_space cs)) \<le> length cs"
    using length_dropWhile_le [of is_space cs] by simp
  then show "((closing, tl (dropWhile is_space cs)), closing, c # cs) \<in> measure (\<lambda>(closing, s). length s)"
    by simp
qed auto

definition single_to_double :: "string \<Rightarrow> string" where
  "single_to_double s = map (\<lambda>c. if c = CHR 0x27 then CHR 0x22 else c) s"

definition drop_final_semicolon :: "string \<Rightarrow> string" where
  "drop_final_semicolon s = (if s \<noteq> [] \<and> last s = CHR '';'' then butlast s else s)"

definition cleaned :: "string \<Rightarrow> string" where
  "cleaned fragment =
     drop_final_semicolon
       (drop_trailing_commas CHR '']''
         (drop_trailing_commas CHR ''}''
           (quote_keys (single_to_double (trim fragment)))))"

definition parseJSFragment :: "platform \<Rightarrow> string \<Rightarrow> json" where
  "parseJSFragment P fragment = parseJSONFragment P (cleaned fragment)"

text \<open>\<^verbatim>\<open>formatJSONFragment\<close>: one line per entry, the value printed by
  \<^verbatim>\<open>JSON.stringify(value, null, 10)\<close> with eight blanks put after each of its line
  feeds, the entries joined by a comma and a line feed.\<close>

fun indent_lines :: "string \<Rightarrow> string" where
  "indent_lines [] = []"
| "indent_lines (c # cs) =
     (if c = LF then LF # ''        '' @ indent_lines cs else c # indent_lines cs)"

definition formatJSONFragment :: "platform \<Rightarrow> json \<Rightarrow> string" where
  "formatJSONFragment P data =
     (if \<not> truthy data \<or> \<not> typeof_object data then []
      else (case Object_entries data of
              Inl _ \<Rightarrow> []
            | Inr entries \<Rightarrow>
                join_with ('','' @ [LF])
                  (map (\<lambda>(key, value).
                          ''        '' @ [CHR 0x22] @ key @ [CHR 0x22] @ '': '' @
                          indent_lines (JSON_stringify P value))
                     entries)))"

definition formatJSFragment :: "platform \<Rightarrow> json \<Rightarrow> string" where
  "formatJSFragment P data = formatJSONFragment P data"

section \<open>The resolver\<close>

subsection \<open>Resolving one conflict\<close>

text \<open>\<^verbatim>\<open>try { body } catch (error) { return conflict.ours; }\<close>: what the body throws is
  dropped and the handler's value returned.\<close>

definition try_catch :: "js_error + 'a \<Rightarrow> (js_error \<Rightarrow> js_error + 'a) \<Rightarrow> js_error + 'a" where
  "try_catch body handler = (case body of Inl e \<Rightarrow> handler e | Inr v \<Rightarrow> Inr v)"

definition smartResolveMeta :: "platform \<Rightarrow> ConflictSection \<Rightarrow> js_error + string" where
  "smartResolveMeta P conflict =
     try_catch
       (let oursData = parseJSONFragment P (ours conflict);
            theirsData = parseJSONFragment P (theirs conflict)
        in if \<not> truthy oursData \<and> \<not> truthy theirsData then Inr (ours conflict)
           else if \<not> truthy oursData then Inr (theirs conflict)
           else if \<not> truthy theirsData then Inr (ours conflict)
           else (case deepMerge (Some (metaResolver P)) (Some oursData) theirsData of
                   Inl e \<Rightarrow> Inl e
                 | Inr merged \<Rightarrow> Inr (formatJSONFragment P merged)))
       (\<lambda>error. Inr (ours conflict))"

definition smartResolveDictionary :: "platform \<Rightarrow> ConflictSection \<Rightarrow> js_error + string" where
  "smartResolveDictionary P conflict =
     try_catch
       (let oursData = parseJSFragment P (ours conflict);
            theirsData = parseJSFragment P (theirs conflict)
        in if \<not> truthy oursData \<and> \<not> truthy theirsData then Inr (ours conflict)
           else if \<not> truthy oursData then Inr (theirs conflict)
           else if \<not> truthy theirsData then Inr (ours conflict)
           else (case deepMerge (Some (dictResolver P)) (Some oursData) theirsData of
                   Inl e \<Rightarrow> Inl e
                 | Inr merged \<Rightarrow> Inr (formatJSFragment P merged)))
       (\<lambda>error. Inr (ours conflict))"

definition smartResolve :: "platform \<Rightarrow> ConflictSection \<Rightarrow> string \<Rightarrow> js_error + string" where
  "smartResolve P conflict fileName =
     (if fileName = ''meta.json'' then smartResolveMeta P conflict
      else if startsWith fileName ''dictionary.'' then smartResolveDictionary P conflict
      else Inr (ours conflict))"

datatype strategy = Smart | Ours | Theirs

record ResolverOptions =
  strategy :: strategy
  verbose :: bool
  dryRun :: bool
  backup :: bool

text \<open>\<^verbatim>\<open>path.basename(filePath)\<close> for POSIX paths: the part after the last slash, slashes
  at the end not counted.\<close>

definition basename :: "string \<Rightarrow> string" where
  "basename filePath =
     rev (takeWhile (\<lambda>c. c \<noteq> CHR ''/'') (dropWhile (\<lambda>c. c = CHR ''/'') (rev filePath)))"

definition resolveConflict ::
  "platform \<Rightarrow> ResolverOptions \<Rightarrow> ConflictSection \<Rightarrow> string \<Rightarrow> js_error + string" where
  "resolveConflict P options conflict filePath =
     (let fileName = basename filePath
      in case strategy options of
           Ours \<Rightarrow> Inr (ours conflict)
         | Theirs \<Rightarrow> Inr (theirs conflict)
         | Smart \<Rightarrow> smartResolve P conflict fileName)"

subsection \<open>Validating the resolved text\<close>

text \<open>\<^verbatim>\<open>.replace(/^export\s+default\s+/, "")\<close> and \<^verbatim>\<open>.replace(/;?\s*$/, "")\<close>: the second
  drops the white space at the end and one semicolon before it.\<close>

definition drop_export_default :: "string \<Rightarrow> string" where
  "drop_export_default s =
     (if startsWith s ''export'' then
        (let r1 = drop 6 s; r2 = dropWhile is_space r1
         in if r1 \<noteq> [] \<and> is_space (hd r1) \<and> startsWith r2 ''default'' then
              (let r3 = drop 7 r2
               in if r3 \<noteq> [] \<and> is_space (hd r3) then dropWhile is_space r3 else s)
            else s)
      else s)"

definition drop_semicolon_and_space :: "string \<Rightarrow> string" where
  "drop_semicolon_and_space s =
     (let t = rev (dropWhile is_space (rev s))
      in if t \<noteq> [] \<and> last t = CHR '';'' then butlast t else t)"

text \<open>The error of the validation, \<^const>\<open>None\<close> when the text is valid.\<close>

definition validateResolvedContent :: "platform \<Rightarrow> string \<Rightarrow> string \<Rightarrow> string option" where
  "validateResolvedContent P content filePath =
     (let fileName = basename filePath
      in case (if fileName = ''meta.json'' then JSON_parse P content
               else if startsWith fileName ''dictionary.'' then
                 JSON_parse P
                   (drop_trailing_commas CHR '']''
                     (drop_trailing_commas CHR ''}''
                       (quote_keys
                         (single_to_double
                           (drop_semicolon_and_space (drop_export_default content))))))
               else Inr JNull) of
           Inr _ \<Rightarrow> None
         | Inl msg \<Rightarrow> Some (''Invalid syntax after resolution: '' @ msg))"

subsection \<open>Files\<close>

text \<open>
  The file system as the three \<^verbatim>\<open>fs\<close> calls see it: a file has the size that
  \<^verbatim>\<open>statSync\<close> reports and the text that \<^verbatim>\<open>readFileSync(path, "utf-8")\<close> returns; a
  call on a missing file throws, and so does a write to a path that refuses it.  A
  written file is given the length of its text as its size; nothing reads that size.
\<close>

record file_node =
  byte_size :: nat
  file_text :: string

record file_system =
  files :: "string \<Rightarrow> file_node option"
  write_denied :: "string \<Rightarrow> bool"

definition statSync :: "file_system \<Rightarrow> string \<Rightarrow> js_error + nat" where
  "statSync fs path =
     (case files fs path of
        None \<Rightarrow> Inl (IOError (''ENOENT: no such file or directory, stat '' @ path))
      | Some f \<Rightarrow> Inr (byte_size f))"

definition readFileSync :: "file_system \<Rightarrow> string \<Rightarrow> js_error + string" where
  "readFileSync fs path =
     (case files fs path of
        None \<Rightarrow> Inl (IOError (''ENOENT: no such file or directory, open '' @ path))
      | Some f \<Rightarrow> Inr (file_text f))"

definition writeFileSync :: "file_system \<Rightarrow> string \<Rightarrow> string \<Rightarrow> js_error + file_system" where
  "writeFileSync fs path data =
     (if write_denied fs path then Inl (IOError (''EACCES: permission denied, open '' @ path))
      else Inr (fs\<lparr>files := (files fs)(path \<mapsto> \<lparr>byte_size = length data, file_text = data\<rparr>)\<rparr>))"

subsection \<open>resolveFile\<close>

record ResolutionResult =
  success :: bool
  conflictsResolved :: nat
  error :: "string option"
  details :: "string option"

definition MAX_FILE_SIZE :: nat where
  "MAX_FILE_SIZE = 10 * 1024 * 1024"

definition failed :: "string \<Rightarrow> ResolutionResult" where
  "failed msg = \<lparr>success = False, conflictsResolved = 0, error = Some msg, details = None\<rparr>"

definition strategy_name :: "strategy \<Rightarrow> string" where
  "strategy_name s = (case s of Smart \<Rightarrow> ''smart'' | Ours \<Rightarrow> ''ours'' | Theirs \<Rightarrow> ''theirs'')"

definition getResolutionDetails :: "ResolverOptions \<Rightarrow> ConflictSection list \<Rightarrow> string \<Rightarrow> string" where
  "getResolutionDetails options conflicts filePath =
     ''Resolved '' @ show_nat (length conflicts) @ '' conflict(s) in '' @ basename filePath @
     '' using '' @ strategy_name (strategy options) @ '' strategy''"

text \<open>
  \<open>resolveFile\<close>, with the file system passed through and the value that
  \<^verbatim>\<open>randomUUID()\<close> would return given.  Every exception ends in the \<^verbatim>\<open>catch\<close> of the
  function: the result carries its message, and the file system is as the calls before
  the exception left it.
\<close>

definition resolveFile ::
  "platform \<Rightarrow> ResolverOptions \<Rightarrow> string \<Rightarrow> string \<Rightarrow> file_system \<Rightarrow> ResolutionResult \<times> file_system"
where
  "resolveFile P options uuid filePath fs =
     (case statSync fs filePath of
        Inl e \<Rightarrow> (failed (message e), fs)
      | Inr stats_size \<Rightarrow>
          if MAX_FILE_SIZE < stats_size then
            (failed (''File too large: '' @ show_nat stats_size @ '' bytes (max: '' @
                     show_nat MAX_FILE_SIZE @ '')''), fs)
          else
            (case readFileSync fs filePath of
               Inl e \<Rightarrow> (failed (message e), fs)
             | Inr content \<Rightarrow>
                 if \<not> hasConflictMarkers content then
                   (\<lparr>success = True, conflictsResolved = 0, error = None,
                     details = Some ''No conflicts found''\<rparr>, fs)
                 else
                   (let conflicts = parseConflicts content
                    in if length conflicts = 0 then
                         (failed ''Invalid conflict markers detected'', fs)
                       else
                         (case (if backup options \<and> \<not> dryRun options
                                then writeFileSync fs (filePath @ ''.backup.'' @ uuid) content
                                else Inr fs) of
                            Inl e \<Rightarrow> (failed (message e), fs)
                          | Inr fs1 \<Rightarrow>
                              (case resolveConflicts content
                                      (\<lambda>conflict. resolveConflict P options conflict filePath) of
                                 Inl e \<Rightarrow> (failed (message e), fs1)
                               | Inr resolvedContent \<Rightarrow>
                                   (case validateResolvedContent P resolvedContent filePath of
                                      Some validation_error \<Rightarrow> (failed validation_error, fs1)
                                    | None \<Rightarrow>
                                        (case (if \<not> dryRun options
                                               then writeFileSync fs1 filePath resolvedContent
                                               else Inr fs1) of
                                           Inl e \<Rightarrow> (failed (message e), fs1)
                                         | Inr fs2 \<Rightarrow>
                                             (\<lparr>success = True,
                                               conflictsResolved = length conflicts,
                                               error = None,
                                               details =
                                                 (if verbose options
                                                  then Some (getResolutionDetails options conflicts filePath)
                                                  else None)\<rparr>, fs2))))))))"

section \<open>A reference platform\<close>

text \<open>
  The theorems below hold for every platform.  To run the code on concrete texts, this
  section gives one: a reader and a printer for JSON, written after ECMA-404 and the
  description of \<^verbatim>\<open>JSON.stringify\<close> with an indent of ten blanks, and the two
  conversions.  They agree with the built-ins on texts whose strings hold no \<^verbatim>\<open>\u\<close>
  escape and whose numbers are printed without an exponent, and on the values read from
  such texts; the reader rejects a \<^verbatim>\<open>\u\<close> escape.
\<close>

definition json_space :: "char \<Rightarrow> bool" where
  "json_space c \<longleftrightarrow> c \<in> set [CHR 0x20, CHR 0x09, CHR 0x0A, CHR 0x0D]"

definition read_fraction :: "string \<Rightarrow> (rat \<times> string) option" where
  "read_fraction s =
     (case s of
        [] \<Rightarrow> Some (0, s)
      | c # r \<Rightarrow>
          if c = CHR ''.'' then
            (let ds = takeWhile is_digit r
             in if ds = [] then None
                else Some (of_nat (nat_of_digits ds) / 10 ^ length ds, dropWhile is_digit r))
          else Some (0, s))"

definition read_exponent :: "string \<Rightarrow> (rat \<times> string) option" where
  "read_exponent s =
     (case s of
        [] \<Rightarrow> Some (1, s)
      | c # r \<Rightarrow>
          if c = CHR ''e'' \<or> c = CHR ''E'' then
            (let negative = (r \<noteq> [] \<and> hd r = CHR ''-'');
                 r1 = (if r \<noteq> [] \<and> (hd r = CHR ''-'' \<or> hd r = CHR ''+'') then tl r else r);
                 ds = takeWhile is_digit r1
             in if ds = [] then None
                else Some (if negative then 1 / 10 ^ nat_of_digits ds else 10 ^ nat_of_digits ds,
                           dropWhile is_digit r1))
          else Some (1, s))"

definition read_number :: "string \<Rightarrow> (rat \<times> string) option" where
  "read_number s =
     (let negative = (s \<noteq> [] \<and> hd s = CHR ''-'');
          s1 = (if negative then tl s else s);
          ds = takeWhile is_digit s1
      in if ds = [] \<or> (1 < length ds \<and> hd ds = CHR ''0'') then None
         else (case read_fraction (dropWhile is_digit s1) of
                 None \<Rightarrow> None
               | Some (fraction, s2) \<Rightarrow>
                   (case read_exponent s2 of
                      None \<Rightarrow> None
                    | Some (scale, s3) \<Rightarrow>
                        Some ((if negative then - 1 else 1) *
                              (of_nat (nat_of_digits ds) + fraction) * scale, s3))))"

definition escaped :: "char \<Rightarrow> char option" where
  "escaped c =
     (if c = CHR 0x22 \<or> c = CHR 0x5C \<or> c = CHR ''/'' then Some c
      else if c = CHR ''b'' then Some (CHR 0x08)
      else if c = CHR ''f'' then Some (CHR 0x0C)
      else if c = CHR ''n'' then Some (CHR 0x0A)
      else if c = CHR ''r'' then Some (CHR 0x0D)
      else if c = CHR ''t'' then Some (CHR 0x09)
      else None)"

text \<open>The characters of a string after its opening quote, and what follows the closing
  one.\<close>

fun read_string :: "string \<Rightarrow> (string \<times> string) option" where
  "read_string [] = None"
| "read_string [c] = (if c = CHR 0x22 then Some ([], []) else None)"
| "read_string (c # d # r) =
     (if c = CHR 0x22 then Some ([], d # r)
      else if c = CHR 0x5C then
        (case escaped d of
           None \<Rightarrow> None
         | Some e \<Rightarrow> (case read_string r of None \<Rightarrow> None | Some (s, r') \<Rightarrow> Some (e # s, r')))
      else if (of_char c :: nat) < 32 then None
      else (case read_string (d # r) of None \<Rightarrow> None | Some (s, r') \<Rightarrow> Some (c # s, r')))"

text \<open>The reader proper.  The first argument bounds the number of nested calls; every
  call reads at least one character before the next, so the length of the text is
  enough.  Each key is defined as an own property of the object read, so a key read
  twice keeps its place and takes the later value.\<close>

fun read_value :: "nat \<Rightarrow> string \<Rightarrow> (json \<times> string) option"
and read_elements :: "nat \<Rightarrow> string \<Rightarrow> json list \<Rightarrow> (json \<times> string) option"
and read_members :: "nat \<Rightarrow> string \<Rightarrow> (string \<times> json) list \<Rightarrow> (json \<times> string) option"
where
  "read_value 0 s = None"
| "read_value (Suc n) s =
     (case dropWhile json_space s of
        [] \<Rightarrow> None
      | c # r \<Rightarrow>
          if c = CHR ''{'' then
            (case dropWhile json_space r of
               [] \<Rightarrow> None
             | d # r' \<Rightarrow> if d = CHR ''}'' then Some (JObj [], r') else read_members n r [])
          else if c = CHR ''['' then
            (case dropWhile json_space r of
               [] \<Rightarrow> None
             | d # r' \<Rightarrow> if d = CHR '']'' then Some (JArr [], r') else read_elements n r [])
          else if c = CHR 0x22 then
            (case read_string r of None \<Rightarrow> None | Some (str, r') \<Rightarrow> Some (JStr str, r'))
          else if take 4 (c # r) = ''true'' then Some (JBool True, drop 4 (c # r))
          else if take 5 (c # r) = ''false'' then Some (JBool False, drop 5 (c # r))
          else if take 4 (c # r) = ''null'' then Some (JNull, drop 4 (c # r))
          else (case read_number (c # r) of None \<Rightarrow> None | Some (x, r') \<Rightarrow> Some (JNum x, r')))"
| "read_elements 0 s acc = None"
| "read_elements (Suc n) s acc =
     (case read_value n s of
        None \<Rightarrow> None
      | Some (v, r) \<Rightarrow>
          (case dropWhile json_space r of
             [] \<Rightarrow> None
           | c # r' \<Rightarrow>
               if c = CHR '','' then read_elements n r' (acc @ [v])
               else if c = CHR '']'' then Some (JArr (acc @ [v]), r')
               else None))"
| "read_members 0 s acc = None"
| "read_members (Suc n) s acc =
     (case dropWhile json_space s of
        [] \<Rightarrow> None
      | q # r \<Rightarrow>
          if q \<noteq> CHR 0x22 then None
          else (case read_string r of
                  None \<Rightarrow> None
                | Some (k, r1) \<Rightarrow>
                    (case dropWhile json_space r1 of
                       [] \<Rightarrow> None
                     | c # r2 \<Rightarrow>
                         if c \<noteq> CHR '':'' then None
                         else (case read_value n r2 of
                                 None \<Rightarrow> None
                               | Some (v, r3) \<Rightarrow>
                                   (case dropWhile json_space r3 of
                                      [] \<Rightarrow> None
                                    | d # r4 \<Rightarrow>
                                        if d = CHR '','' then read_members n r4 (define_own k v acc)
                                        else if d = CHR ''}'' then Some (JObj (define_own k v acc), r4)
                                        else None)))))"

definition read_json :: "string \<Rightarrow> string + json" where
  "read_json s =
     (case read_value (length s + 1) s of
        None \<Rightarrow> Inl ''Unexpected token in JSON''
      | Some (v, r) \<Rightarrow>
          if dropWhile json_space r = [] then Inr v else Inl ''Unexpected token in JSON'')"

text \<open>The printer.\<close>

fun fraction_digits :: "nat \<Rightarrow> rat \<Rightarrow> string" where
  "fraction_digits 0 f = []"
| "fraction_digits (Suc k) f =
     (if f = 0 then []
      else (let d = nat \<lfloor>10 * f\<rfloor>
            in (''0123456789'' ! d) # fraction_digits k (10 * f - of_nat d)))"

definition print_number :: "rat \<Rightarrow> string" where
  "print_number x =
     (let a = \<bar>x\<bar>; whole = nat \<lfloor>a\<rfloor>; digits = fraction_digits 20 (a - of_nat whole)
      in (if x < 0 then ''-'' else []) @ show_nat whole @
         (if digits = [] then [] else CHR ''.'' # digits))"

definition print_char :: "char \<Rightarrow> string" where
  "print_char c =
     (if c = CHR 0x22 then [CHR 0x5C, CHR 0x22]
      else if c = CHR 0x5C then [CHR 0x5C, CHR 0x5C]
      else if c = CHR 0x08 then [CHR 0x5C, CHR ''b'']
      else if c = CHR 0x0C then [CHR 0x5C, CHR ''f'']
      else if c = CHR 0x0A then [CHR 0x5C, CHR ''n'']
      else if c = CHR 0x0D then [CHR 0x5C, CHR ''r'']
      else if c = CHR 0x09 then [CHR 0x5C, CHR ''t'']
      else if (of_char c :: nat) < 32 then
        [CHR 0x5C, CHR ''u'', CHR ''0'', CHR ''0'',
         ''0123456789abcdef'' ! (of_char c div 16), ''0123456789abcdef'' ! (of_char c mod 16)]
      else [c])"

definition print_string :: "string \<Rightarrow> string" where
  "print_string s = CHR 0x22 # concat (map print_char s) @ [CHR 0x22]"

fun print_json :: "nat \<Rightarrow> json \<Rightarrow> string"
and print_items :: "nat \<Rightarrow> json list \<Rightarrow> string"
and print_members :: "nat \<Rightarrow> (string \<times> json) list \<Rightarrow> string"
where
  "print_json indent JNull = ''null''"
| "print_json indent (JBool b) = (if b then ''true'' else ''false'')"
| "print_json indent (JNum x) = print_number x"
| "print_json indent (JStr s) = print_string s"
| "print_json indent (JArr xs) =
     (if xs = [] then ''[]''
      else ''['' @ [LF] @ print_items (indent + 10) xs @ [LF] @ replicate indent CHR '' '' @ '']'')"
| "print_json indent (JObj kvs) =
     (if kvs = [] then ''{}''
      else ''{'' @ [LF] @ print_members (indent + 10) kvs @ [LF] @ replicate indent CHR '' '' @ ''}'')"
| "print_json indent (JWith kvs proto) =
     (if kvs = [] then ''{}''
      else ''{'' @ [LF] @ print_members (indent + 10) kvs @ [LF] @ replicate indent CHR '' '' @ ''}'')"
| "print_json indent JObjectPrototype = ''{}''"
| "print_json indent JArrayPrototype = ''[]''"
| "print_json indent (JFun name) = ''null''"
| "print_items indent [] = []"
| "print_items indent (x # xs) =
     replicate indent CHR '' '' @ print_json indent x @
     (if xs = [] then [] else '','' @ [LF] @ print_items indent xs)"
| "print_members indent [] = []"
| "print_members indent ((k, v) # kvs) =
     replicate indent CHR '' '' @ print_string k @ '': '' @ print_json indent v @
     (if kvs = [] then [] else '','' @ [LF] @ print_members indent kvs)"

text \<open>\<^verbatim>\<open>String(v)\<close>: an array prints its elements separated by commas, \<^verbatim>\<open>null\<close> among
  them as nothing; an object prints as \<^verbatim>\<open>[object Object]\<close> when the \<^verbatim>\<open>toString\<close> it
  finds is the built-in method, and the conversion throws when it finds a property that
  is not a function, or nothing.\<close>

fun text_of :: "json \<Rightarrow> js_error + string"
and texts_of :: "json list \<Rightarrow> js_error + string list"
where
  "text_of JNull = Inr ''null''"
| "text_of (JBool b) = Inr (if b then ''true'' else ''false'')"
| "text_of (JNum r) = Inr (print_number r)"
| "text_of (JStr s) = Inr s"
| "text_of (JArr xs) =
     (case texts_of xs of Inl e \<Rightarrow> Inl e | Inr ts \<Rightarrow> Inr (join_with '','' ts))"
| "text_of (JFun name) = Inr (''function '' @ name @ ''() { [native code] }'')"
| "text_of JArrayPrototype = Inr []"
| "text_of v =
     (case lookup v ''toString'' of
        Method name \<Rightarrow> Inr ''[object Object]''
      | _ \<Rightarrow> Inl (TypeError ''Cannot convert object to primitive value''))"
| "texts_of [] = Inr []"
| "texts_of (x # xs) =
     (case (if x = JNull then Inr [] else text_of x) of
        Inl e \<Rightarrow> Inl e
      | Inr t \<Rightarrow> (case texts_of xs of Inl e \<Rightarrow> Inl e | Inr ts \<Rightarrow> Inr (t # ts)))"

text \<open>\<^verbatim>\<open>ToNumber\<close> of a string, an array or an object, for decimal literals: the number
  that the trimmed text spells, zero for the empty text.\<close>

definition number_of_text :: "string \<Rightarrow> rat option" where
  "number_of_text s =
     (let t = trim s
      in if t = [] then Some 0
         else (case read_number t of
                 None \<Rightarrow> None
               | Some (x, r) \<Rightarrow> if r = [] then Some x else None))"

definition reference_platform :: platform where
  "reference_platform =
     \<lparr>JSON_parse = read_json,
      JSON_stringify = print_json 0,
      Number_toString = print_number,
      Object_toString = text_of,
      ToNumber = (\<lambda>v. case text_of v of Inl e \<Rightarrow> Inl e | Inr t \<Rightarrow> Inr (number_of_text t))\<rparr>"

section \<open>Properties of the conflict parser\<close>

subsection \<open>Slices\<close>

lemma slice_snoc: "a \<le> b \<Longrightarrow> b < length xs \<Longrightarrow> slice xs a (b + 1) = slice xs a b @ [xs ! b]"
proof -
  assume ab: "a \<le> b" and b: "b < length xs"
  have "b + 1 - a = Suc (b - a)" using ab by simp
  moreover have "b - a < length (drop a xs)" using ab b by simp
  moreover have "drop a xs ! (b - a) = xs ! b" using ab b by simp
  ultimately show ?thesis
    by (simp add: slice_def take_Suc_conv_app_nth)
qed

lemma in_set_slice: "x \<in> set (slice xs a b) \<Longrightarrow> \<exists>j. a \<le> j \<and> j < b \<and> j < length xs \<and> x = xs ! j"
proof -
  assume "x \<in> set (slice xs a b)"
  then obtain k where k: "k < length (take (b - a) (drop a xs))" "x = take (b - a) (drop a xs) ! k"
    unfolding slice_def by (auto simp: in_set_conv_nth)
  then have "a \<le> a + k \<and> a + k < b \<and> a + k < length xs \<and> x = xs ! (a + k)"
    by auto
  then show ?thesis by blast
qed

lemma nth_in_slice: "a \<le> j \<Longrightarrow> j < b \<Longrightarrow> j < length xs \<Longrightarrow> xs ! j \<in> set (slice xs a b)"
proof -
  assume j: "a \<le> j" "j < b" "j < length xs"
  then have "j - a < length (take (b - a) (drop a xs))" by auto
  moreover have "take (b - a) (drop a xs) ! (j - a) = xs ! j" using j by auto
  ultimately show ?thesis unfolding slice_def by (metis nth_mem)
qed

subsection \<open>hasConflictMarkers\<close>

text \<open>The state after the loop, read off the lines: each flag is set exactly when a
  line of its kind occurs, each counter counts the lines of its kind.\<close>

lemma fold_scan_line:
  "fold scan_line ls s =
     \<lparr>hasStart = hasStart s \<or> filter CONFLICT_START ls \<noteq> [],
      hasMiddle = hasMiddle s \<or> filter CONFLICT_MIDDLE ls \<noteq> [],
      hasEnd = hasEnd s \<or> filter CONFLICT_END ls \<noteq> [],
      startCount = startCount s + length (filter CONFLICT_START ls),
      endCount = endCount s + length (filter CONFLICT_END ls)\<rparr>"
proof (induction ls arbitrary: s)
  case Nil
  show ?case by simp
next
  case (Cons l ls)
  have step: "fold scan_line (l # ls) s = fold scan_line ls (scan_line l s)"
    by simp
  show ?case
    unfolding step Cons.IH [of "scan_line l s"]
    by (auto simp: scan_line_def START_not_MIDDLE START_not_END MIDDLE_not_END)
qed

text \<open>
  The specification's wording of what the function looks for: a well-formed conflict
  region, that is a start-marker line, a middle-marker line after it and an end-marker
  line after that.
\<close>

definition spec_conflict_region :: "string list \<Rightarrow> bool" where
  "spec_conflict_region lines =
     (case dropWhile (\<lambda>l. \<not> CONFLICT_START l) lines of
        [] \<Rightarrow> False
      | start # after_start \<Rightarrow>
          (case dropWhile (\<lambda>l. \<not> CONFLICT_MIDDLE l) after_start of
             [] \<Rightarrow> False
           | middle # after_middle \<Rightarrow> list_ex CONFLICT_END after_middle))"

lemma spec_conflict_region_markers:
  assumes "spec_conflict_region lines"
  shows "filter CONFLICT_START lines \<noteq> [] \<and> filter CONFLICT_MIDDLE lines \<noteq> [] \<and>
         filter CONFLICT_END lines \<noteq> []"
proof -
  from assms obtain start after_start middle after_middle
    where s: "dropWhile (\<lambda>l. \<not> CONFLICT_START l) lines = start # after_start"
      and m: "dropWhile (\<lambda>l. \<not> CONFLICT_MIDDLE l) after_start = middle # after_middle"
      and e: "list_ex CONFLICT_END after_middle"
    by (auto simp: spec_conflict_region_def split: list.splits)
  from s have s1: "CONFLICT_START start"
    using hd_dropWhile [of "\<lambda>l. \<not> CONFLICT_START l" lines] by simp
  from s have s2: "set (start # after_start) \<subseteq> set lines"
    using set_dropWhileD [of _ "\<lambda>l. \<not> CONFLICT_START l" lines] by auto
  from m have m1: "CONFLICT_MIDDLE middle"
    using hd_dropWhile [of "\<lambda>l. \<not> CONFLICT_MIDDLE l" after_start] by simp
  from m have m2: "set (middle # after_middle) \<subseteq> set after_start"
    using set_dropWhileD [of _ "\<lambda>l. \<not> CONFLICT_MIDDLE l" after_start] by auto
  from e obtain l where l: "l \<in> set after_middle" "CONFLICT_END l"
    by (auto simp: list_ex_iff)
  have "start \<in> set lines" using s2 by simp
  moreover have "middle \<in> set lines" using s2 m2 by auto
  moreover have "l \<in> set lines" using s2 m2 l(1) by auto
  ultimately show ?thesis using s1 m1 l(2) by (auto simp: filter_empty_conv)
qed

text \<open>
  Claim C5, as amended.  \<^const>\<open>hasConflictMarkers\<close> returns true for a text if and only if
  the text has at least one whole-line start marker, at least one whole-line middle
  marker and at least one whole-line end marker, in whatever order, and as many
  start-marker lines as end-marker lines.  So it returns true for every text that
  holds a well-formed conflict region and as many start as end markers; it also returns
  true for texts that hold no region, their markers being out of order.  A text with
  one start marker and no end marker yields false, whatever else it holds.
\<close>

theorem hasConflictMarkers_iff:
  "(hasConflictMarkers content \<longleftrightarrow>
      marker_lines CONFLICT_START content \<noteq> [] \<and>
      marker_lines CONFLICT_MIDDLE content \<noteq> [] \<and>
      marker_lines CONFLICT_END content \<noteq> [] \<and>
      length (marker_lines CONFLICT_START content) = length (marker_lines CONFLICT_END content)) \<and>
   (length (marker_lines CONFLICT_START content) = 1 \<and> marker_lines CONFLICT_END content = []
      \<longrightarrow> \<not> hasConflictMarkers content) \<and>
   (spec_conflict_region (split_lines content) \<and>
    length (marker_lines CONFLICT_START content) = length (marker_lines CONFLICT_END content)
      \<longrightarrow> hasConflictMarkers content)"
  using spec_conflict_region_markers [of "split_lines content"]
  by (auto simp: hasConflictMarkers_def fold_scan_line scan_init_def marker_lines_def Let_def)

theorem hasConflictMarkers_iff_witness:
  "length (marker_lines CONFLICT_START ''<<<<<<< HEAD\<newline>=======\<newline>x'') = 1 \<and>
   marker_lines CONFLICT_END ''<<<<<<< HEAD\<newline>=======\<newline>x'' = [] \<and>
   \<not> hasConflictMarkers ''<<<<<<< HEAD\<newline>=======\<newline>x'' \<and>
   spec_conflict_region (split_lines ''<<<<<<< HEAD\<newline>a\<newline>=======\<newline>b\<newline>>>>>>>> branch'') \<and>
   hasConflictMarkers ''<<<<<<< HEAD\<newline>a\<newline>=======\<newline>b\<newline>>>>>>>> branch''"
proof -
  have a: "length (marker_lines CONFLICT_START ''<<<<<<< HEAD\<newline>=======\<newline>x'') = 1"
    by code_simp
  have b: "marker_lines CONFLICT_END ''<<<<<<< HEAD\<newline>=======\<newline>x'' = []"
    by code_simp
  have c: "spec_conflict_region (split_lines ''<<<<<<< HEAD\<newline>a\<newline>=======\<newline>b\<newline>>>>>>>> branch'')"
    by code_simp
  have d: "length (marker_lines CONFLICT_START ''<<<<<<< HEAD\<newline>a\<newline>=======\<newline>b\<newline>>>>>>>> branch'') =
      length (marker_lines CONFLICT_END ''<<<<<<< HEAD\<newline>a\<newline>=======\<newline>b\<newline>>>>>>>> branch'')"
    by code_simp
  from a b c d hasConflictMarkers_iff [of "''<<<<<<< HEAD\<newline>=======\<newline>x''"]
    hasConflictMarkers_iff [of "''<<<<<<< HEAD\<newline>a\<newline>=======\<newline>b\<newline>>>>>>>> branch''"]
  show ?thesis by blast
qed

text \<open>Claim C5 as stated fails in its ``only if'': a text whose end marker comes first
  and whose start marker comes last holds no conflict region, \<^const>\<open>parseConflicts\<close>
  finds no section in it, and \<^const>\<open>hasConflictMarkers\<close> returns true.\<close>

theorem markers_out_of_order_counterexample:
  "hasConflictMarkers ''>>>>>>> b\<newline>=======\<newline><<<<<<< a'' \<and>
   \<not> spec_conflict_region (split_lines ''>>>>>>> b\<newline>=======\<newline><<<<<<< a'') \<and>
   parseConflicts ''>>>>>>> b\<newline>=======\<newline><<<<<<< a'' = []"
  by code_simp

subsection \<open>parseConflicts: the sections found\<close>

text \<open>The shape of what the loop returns from position \<open>pos\<close> in \<open>n\<close> lines: each
  section starts at or after the position reached, ends inside the text, and the next
  one is looked for after its end marker.\<close>

fun sections_from :: "nat \<Rightarrow> nat \<Rightarrow> ConflictSection list \<Rightarrow> bool" where
  "sections_from pos n [] = True"
| "sections_from pos n (c # cs) =
     (pos \<le> startLine c \<and> startLine c < endLine c \<and> endLine c < n \<and>
      sections_from (endLine c + 1) n cs)"

lemma sections_from_mono: "sections_from q n cs \<Longrightarrow> p \<le> q \<Longrightarrow> sections_from p n cs"
  by (cases cs) auto

lemma parse_from_sections: "sections_from i (length lines) (parse_from lines i)"
proof (induction lines i rule: parse_from.induct)
  case (1 lines i)
  show ?case
  proof (cases "i < length lines")
    case False
    then show ?thesis by (subst parse_from.simps) simp
  next
    case inb: True
    show ?thesis
    proof (cases "CONFLICT_START (lines ! i)")
      case False
      with inb "1.IH"(3) have "sections_from (i + 1) (length lines) (parse_from lines (i + 1))"
        by simp
      then have "sections_from i (length lines) (parse_from lines (i + 1))"
        by (rule sections_from_mono) simp
      with inb False show ?thesis by (subst parse_from.simps) simp
    next
      case start: True
      show ?thesis
      proof (cases "parseConflictSection lines i")
        case None
        with inb start "1.IH"(1) have "sections_from (i + 1) (length lines) (parse_from lines (i + 1))"
          by simp
        then have "sections_from i (length lines) (parse_from lines (i + 1))"
          by (rule sections_from_mono) simp
        with inb start None show ?thesis by (subst parse_from.simps) simp
      next
        case (Some c)
        with inb start "1.IH"(2)
        have "sections_from (endLine c + 1) (length lines) (parse_from lines (endLine c + 1))"
          by simp
        moreover note parseConflictSection_Some(1-3) [OF Some]
        ultimately show ?thesis using inb start Some by (subst parse_from.simps) simp
      qed
    qed
  qed
qed

lemma parse_from_member:
  "c \<in> set (parse_from lines i) \<Longrightarrow>
     parseConflictSection lines (startLine c) = Some c \<and> CONFLICT_START (lines ! startLine c) \<and>
     i \<le> startLine c \<and> startLine c < length lines"
proof (induction lines i rule: parse_from.induct)
  case (1 lines i)
  show ?case
  proof (cases "i < length lines")
    case False
    with "1.prems" show ?thesis by (subst (asm) parse_from.simps) simp
  next
    case inb: True
    show ?thesis
    proof (cases "CONFLICT_START (lines ! i)")
      case False
      with inb "1.prems" have "c \<in> set (parse_from lines (i + 1))"
        by (subst (asm) parse_from.simps) simp
      with inb False "1.IH"(3) show ?thesis by fastforce
    next
      case start: True
      show ?thesis
      proof (cases "parseConflictSection lines i")
        case None
        with inb start "1.prems" have "c \<in> set (parse_from lines (i + 1))"
          by (subst (asm) parse_from.simps) simp
        with inb start None "1.IH"(1) show ?thesis by fastforce
      next
        case (Some d)
        note d = parseConflictSection_Some(1-3) [OF Some]
        from inb start Some "1.prems" have "c = d \<or> c \<in> set (parse_from lines (endLine d + 1))"
          by (subst (asm) parse_from.simps) auto
        then show ?thesis
        proof
          assume "c = d"
          with Some d start inb show ?thesis by simp
        next
          assume "c \<in> set (parse_from lines (endLine d + 1))"
          with inb start Some "1.IH"(2) d show ?thesis by fastforce
        qed
      qed
    qed
  qed
qed

lemma sections_from_lower: "sections_from p n cs \<Longrightarrow> c \<in> set cs \<Longrightarrow> p \<le> startLine c"
proof (induction cs arbitrary: p)
  case Nil
  then show ?case by simp
next
  case (Cons d cs)
  then show ?case by (fastforce)
qed

lemma sections_from_sorted:
  "sections_from p n cs \<Longrightarrow> sorted_wrt (\<lambda>c d. endLine c < startLine d) cs"
proof (induction cs arbitrary: p)
  case Nil
  show ?case by simp
next
  case (Cons d cs)
  then show ?case by (fastforce dest: sections_from_lower)
qed

lemma find_upt_first:
  assumes "a \<le> e" "e < n" "P e" "\<And>j. a \<le> j \<Longrightarrow> j < e \<Longrightarrow> \<not> P j"
  shows "List.find P [a..<n] = Some e"
proof -
  have "e - a < length [a..<n]" using assms by simp
  moreover have "[a..<n] ! (e - a) = e" using assms by simp
  moreover have "\<forall>j<e - a. \<not> P ([a..<n] ! j)" using assms by simp
  ultimately show ?thesis
    unfolding find_Some_iff using assms(3) by (intro exI [of _ "e - a"]) simp
qed

lemma parseConflictSection_None_iff:
  "parseConflictSection lines i = None \<longleftrightarrow> missing_middle_or_end lines i"
proof -
  obtain m b e where fm: "find_markers lines (i + 1) None None = (m, b, e)"
    by (cases "find_markers lines (i + 1) None None") auto
  show ?thesis
  proof (cases e)
    case None
    have "List.find (\<lambda>j. CONFLICT_END (lines ! j)) [i + 1 ..< length lines] = None"
      unfolding find_None_iff using find_markers_no_end [OF fm [unfolded None]] by auto
    then show ?thesis using fm None
      by (simp add: parseConflictSection_def missing_middle_or_end_def split: option.splits)
  next
    case (Some e0)
    note fm' = fm [unfolded Some]
    from find_markers_end [OF fm'] have e0: "i + 1 \<le> e0" "e0 < length lines" "CONFLICT_END (lines ! e0)"
      by simp_all
    have fnd: "List.find (\<lambda>j. CONFLICT_END (lines ! j)) [i + 1 ..< length lines] = Some e0"
      using e0 find_markers_first_end [OF fm'] by (intro find_upt_first) auto
    show ?thesis
    proof (cases m)
      case None
      have "\<not> list_ex (\<lambda>j. CONFLICT_MIDDLE (lines ! j)) [i + 1 ..< e0]"
        using find_markers_middle_missing [OF fm' [unfolded None]] by (auto simp: list_ex_iff)
      then show ?thesis using fm' None fnd
        by (simp add: parseConflictSection_def missing_middle_or_end_def)
    next
      case (Some k)
      from find_markers_middle_found [OF fm' [unfolded Some]]
      have "list_ex (\<lambda>j. CONFLICT_MIDDLE (lines ! j)) [i + 1 ..< e0]"
        by (auto simp: list_ex_iff)
      then show ?thesis using fm' Some fnd
        by (simp add: parseConflictSection_def missing_middle_or_end_def Let_def)
    qed
  qed
qed

lemma span_END:
  assumes "parseConflictSection lines s = Some c" "CONFLICT_START (lines ! s)"
  shows "filter CONFLICT_END (section_lines lines c) = [lines ! endLine c]"
proof -
  note c = parseConflictSection_Some [OF assms(1)]
  have "\<not> CONFLICT_END x" if "x \<in> set (slice lines (startLine c) (endLine c))" for x
  proof -
    from in_set_slice [OF that] obtain j where j: "startLine c \<le> j" "j < endLine c" "x = lines ! j"
      by blast
    show ?thesis
    proof (cases "j = s")
      case True
      with assms(2) j show ?thesis by (simp add: START_not_END)
    next
      case False
      with j c(1) have "s < j" by simp
      with c(5) j show ?thesis by simp
    qed
  qed
  then have "filter CONFLICT_END (slice lines (startLine c) (endLine c)) = []"
    by (simp add: filter_empty_conv)
  moreover have "section_lines lines c = slice lines (startLine c) (endLine c) @ [lines ! endLine c]"
    unfolding section_lines_def using c(1-3) by (intro slice_snoc) simp_all
  ultimately show ?thesis using c(4) by simp
qed

lemma span_MIDDLE:
  assumes "parseConflictSection lines s = Some c"
  shows "1 \<le> length (filter CONFLICT_MIDDLE (section_lines lines c))"
proof -
  note c = parseConflictSection_Some [OF assms(1)]
  from c(6) obtain k where k: "s < k" "k < endLine c" "CONFLICT_MIDDLE (lines ! k)" by blast
  have "lines ! k \<in> set (section_lines lines c)"
    unfolding section_lines_def using k c(1-3) by (intro nth_in_slice) simp_all
  with k(3) have "filter CONFLICT_MIDDLE (section_lines lines c) \<noteq> []"
    by (auto simp: filter_empty_conv)
  then show ?thesis by (cases "filter CONFLICT_MIDDLE (section_lines lines c)") simp_all
qed

text \<open>
  Claim C9, as amended.  For every text, every section returned by \<^const>\<open>parseConflicts\<close>
  has \<open>startLine < endLine\<close>, starts on a start-marker line and ends on an end-marker
  line inside the text, holds exactly one end-marker line among its lines (its last) and
  at least one middle-marker line; the sections are listed in document order and never
  overlap: a later section starts strictly after an earlier one ends.
  (The number of middle-marker lines is not bounded by one: the guard
  \<^verbatim>\<open>middleIndex === -1\<close> records the first one only, and a further one before the
  end marker stays among the lines of the section, as the counterexample below shows.)
\<close>

theorem parseConflicts_sections:
  "(\<forall>c\<in>set (parseConflicts content).
      startLine c < endLine c \<and> endLine c < length (split_lines content) \<and>
      CONFLICT_START (split_lines content ! startLine c) \<and>
      CONFLICT_END (split_lines content ! endLine c) \<and>
      length (filter CONFLICT_END (section_lines (split_lines content) c)) = 1 \<and>
      1 \<le> length (filter CONFLICT_MIDDLE (section_lines (split_lines content) c))) \<and>
   (\<forall>i j. i < j \<and> j < length (parseConflicts content) \<longrightarrow>
      endLine (parseConflicts content ! i) < startLine (parseConflicts content ! j))"
proof (intro conjI ballI allI impI)
  fix c assume "c \<in> set (parseConflicts content)"
  then have m: "parseConflictSection (split_lines content) (startLine c) = Some c"
    "CONFLICT_START (split_lines content ! startLine c)"
    unfolding parseConflicts_def by (auto dest: parse_from_member)
  note c = parseConflictSection_Some [OF m(1)]
  show "startLine c < endLine c" by (fact c(2))
  show "endLine c < length (split_lines content)" by (fact c(3))
  show "CONFLICT_START (split_lines content ! startLine c)" by (fact m(2))
  show "CONFLICT_END (split_lines content ! endLine c)" by (fact c(4))
  show "length (filter CONFLICT_END (section_lines (split_lines content) c)) = 1"
    by (simp add: span_END [OF m])
  show "1 \<le> length (filter CONFLICT_MIDDLE (section_lines (split_lines content) c))"
    by (rule span_MIDDLE [OF m(1)])
next
  fix i j assume "i < j \<and> j < length (parseConflicts content)"
  moreover have "sorted_wrt (\<lambda>c d. endLine c < startLine d) (parseConflicts content)"
    unfolding parseConflicts_def by (rule sections_from_sorted [OF parse_from_sections])
  ultimately show "endLine (parseConflicts content ! i) < startLine (parseConflicts content ! j)"
    by (simp add: sorted_wrt_iff_nth_less)
qed

text \<open>A text with two conflicts, the second with a base part, used as a concrete input.\<close>

definition two_conflicts :: string where
  "two_conflicts = join_lines
     [''{'', ''<<<<<<< HEAD'', ''  a'', ''======='', ''  b'', ''>>>>>>> branch'', ''  c'',
      ''<<<<<<< HEAD'', ''  d'', ''||||||| base'', ''  e'', ''======='', ''  f'', ''>>>>>>> branch'', ''}'']"

lemma parseConflicts_two_conflicts:
  "parseConflicts two_conflicts =
     [\<lparr>ours = ''  a'', theirs = ''  b'', base = None, startLine = 1, endLine = 5\<rparr>,
      \<lparr>ours = ''  d'', theirs = ''  f'', base = Some ''  e'', startLine = 7, endLine = 13\<rparr>]"
  unfolding two_conflicts_def by code_simp

theorem parseConflicts_sections_witness:
  "length (parseConflicts two_conflicts) = 2 \<and>
   endLine (parseConflicts two_conflicts ! 0) < startLine (parseConflicts two_conflicts ! 1) \<and>
   (\<exists>c\<in>set (parseConflicts two_conflicts). startLine c < endLine c \<and>
      length (filter CONFLICT_END (section_lines (split_lines two_conflicts) c)) = 1)"
proof -
  have l: "length (parseConflicts two_conflicts) = 2"
    by (simp add: parseConflicts_two_conflicts)
  have m: "parseConflicts two_conflicts ! 0 \<in> set (parseConflicts two_conflicts)"
    by (simp add: parseConflicts_two_conflicts)
  from parseConflicts_sections [of two_conflicts] l m show ?thesis
    by (metis One_nat_def Suc_1 lessI zero_less_one)
qed

text \<open>Claim C9 as stated fails: a section with two middle-marker lines between its
  start and its end marker is returned; in this one the second middle marker is the
  text of \<^verbatim>\<open>theirs\<close>.\<close>

theorem two_middle_markers_counterexample:
  "parseConflicts ''<<<<<<< HEAD\<newline>=======\<newline>=======\<newline>>>>>>>> branch'' =
     [\<lparr>ours = [], theirs = ''======='', base = None, startLine = 0, endLine = 3\<rparr>] \<and>
   length (filter CONFLICT_MIDDLE
     (section_lines (split_lines ''<<<<<<< HEAD\<newline>=======\<newline>=======\<newline>>>>>>>> branch'')
        \<lparr>ours = [], theirs = ''======='', base = None, startLine = 0, endLine = 3\<rparr>)) = 2"
  by code_simp

subsection \<open>parseConflicts: candidates given up\<close>

text \<open>
  Claim C3, as amended.  \<^const>\<open>parseConflicts\<close> is a total function (its loops terminate
  and no step of them can throw).  \<^const>\<open>parseConflictSection\<close> returns null for a
  candidate exactly when no end marker follows its start marker, or no middle marker
  comes before the first end marker that follows: start markers met during the search
  are ordinary lines, the code has no notion of a nested start marker.  A start-marker
  line that is given up in this way consumes no line: the scan goes on at the very next
  line, and no returned section starts there.
\<close>

theorem malformed_candidate_discarded:
  "(parseConflictSection (split_lines content) i = None \<longleftrightarrow>
      missing_middle_or_end (split_lines content) i) \<and>
   (i < length (split_lines content) \<and> CONFLICT_START (split_lines content ! i) \<and>
    missing_middle_or_end (split_lines content) i \<longrightarrow>
      parseConflictSection (split_lines content) i = None \<and>
      parse_from (split_lines content) i = parse_from (split_lines content) (i + 1) \<and>
      (\<forall>c\<in>set (parseConflicts content). startLine c \<noteq> i))"
proof -
  have iff: "parseConflictSection (split_lines content) i = None \<longleftrightarrow>
      missing_middle_or_end (split_lines content) i"
    by (rule parseConflictSection_None_iff)
  have "parseConflictSection (split_lines content) i = None \<and>
      parse_from (split_lines content) i = parse_from (split_lines content) (i + 1) \<and>
      (\<forall>c\<in>set (parseConflicts content). startLine c \<noteq> i)"
    if a: "i < length (split_lines content)" "CONFLICT_START (split_lines content ! i)"
      "missing_middle_or_end (split_lines content) i"
  proof -
    from a(3) iff have none: "parseConflictSection (split_lines content) i = None" by simp
    have "parse_from (split_lines content) i = parse_from (split_lines content) (i + 1)"
      using a(1,2) none by (subst parse_from.simps) simp
    moreover have "startLine c \<noteq> i" if "c \<in> set (parseConflicts content)" for c
      using parse_from_member [of c "split_lines content" 0] that none
      by (auto simp: parseConflicts_def)
    ultimately show ?thesis using none by blast
  qed
  with iff show ?thesis by blast
qed

theorem malformed_candidate_discarded_witness:
  "parseConflicts ''<<<<<<< HEAD\<newline>a\<newline><<<<<<< HEAD\<newline>b\<newline>=======\<newline>c'' = [] \<and>
   missing_middle_or_end (split_lines ''<<<<<<< one\<newline>>>>>>>> x\<newline>=======\<newline><<<<<<< two\<newline>=======\<newline>>>>>>>> y'') 0 \<and>
   parseConflictSection (split_lines ''<<<<<<< one\<newline>>>>>>>> x\<newline>=======\<newline><<<<<<< two\<newline>=======\<newline>>>>>>>> y'') 0 = None \<and>
   parse_from (split_lines ''<<<<<<< one\<newline>>>>>>>> x\<newline>=======\<newline><<<<<<< two\<newline>=======\<newline>>>>>>>> y'') 0 =
   parse_from (split_lines ''<<<<<<< one\<newline>>>>>>>> x\<newline>=======\<newline><<<<<<< two\<newline>=======\<newline>>>>>>>> y'') 1 \<and>
   parseConflicts ''<<<<<<< one\<newline>>>>>>>> x\<newline>=======\<newline><<<<<<< two\<newline>=======\<newline>>>>>>>> y'' =
     [\<lparr>ours = [], theirs = [], base = None, startLine = 3, endLine = 5\<rparr>]"
proof -
  have a: "0 < length (split_lines ''<<<<<<< one\<newline>>>>>>>> x\<newline>=======\<newline><<<<<<< two\<newline>=======\<newline>>>>>>>> y'')"
    by code_simp
  have b: "CONFLICT_START (split_lines ''<<<<<<< one\<newline>>>>>>>> x\<newline>=======\<newline><<<<<<< two\<newline>=======\<newline>>>>>>>> y'' ! 0)"
    by code_simp
  have c: "missing_middle_or_end (split_lines ''<<<<<<< one\<newline>>>>>>>> x\<newline>=======\<newline><<<<<<< two\<newline>=======\<newline>>>>>>>> y'') 0"
    by code_simp
  have d: "parseConflicts ''<<<<<<< HEAD\<newline>a\<newline><<<<<<< HEAD\<newline>b\<newline>=======\<newline>c'' = []"
    by code_simp
  have e: "parseConflicts ''<<<<<<< one\<newline>>>>>>>> x\<newline>=======\<newline><<<<<<< two\<newline>=======\<newline>>>>>>>> y'' =
     [\<lparr>ours = [], theirs = [], base = None, startLine = 3, endLine = 5\<rparr>]"
    by code_simp
  from malformed_candidate_discarded
         [of "''<<<<<<< one\<newline>>>>>>>> x\<newline>=======\<newline><<<<<<< two\<newline>=======\<newline>>>>>>>> y''" 0]
       a b c d e
  show ?thesis by simp
qed

text \<open>Claim C3 as stated fails where it speaks of a nested start marker: the candidate
  at line 0 has neither a middle nor an end marker before the start marker at line 2,
  and yet it is returned as a conflict, spanning the nested start marker, up to the
  end marker at line 6.\<close>

theorem nested_start_counterexample:
  "CONFLICT_START (split_lines ''<<<<<<< A\<newline>x\<newline><<<<<<< B\<newline>y\<newline>=======\<newline>z\<newline>>>>>>>> B'' ! 0) \<and>
   spec_missing_before_nested_start
     (split_lines ''<<<<<<< A\<newline>x\<newline><<<<<<< B\<newline>y\<newline>=======\<newline>z\<newline>>>>>>>> B'') 0 \<and>
   parseConflicts ''<<<<<<< A\<newline>x\<newline><<<<<<< B\<newline>y\<newline>=======\<newline>z\<newline>>>>>>>> B'' =
     [\<lparr>ours = ''x\<newline><<<<<<< B\<newline>y'', theirs = ''z'', base = None, startLine = 0, endLine = 6\<rparr>]"
  by code_simp

subsection \<open>resolveConflicts: what is replaced and what is kept\<close>

lemma resolve_loop_append:
  "resolve_loop r (xs @ ys) lines =
     (case resolve_loop r xs lines of Inl e \<Rightarrow> Inl e | Inr lines' \<Rightarrow> resolve_loop r ys lines')"
  by (induction xs arbitrary: lines) (auto split: sum.splits)

lemma resolve_loop_rev:
  assumes "sections_from p (length lines) cs" and "\<forall>c\<in>set cs. r c = Inr (f c)"
    and "p \<le> length lines"
  shows "resolve_loop r (rev cs) lines = Inr (take p lines @ rebuild lines p cs f)"
  using assms
proof (induction cs arbitrary: p)
  case Nil
  show ?case by simp
next
  case (Cons c cs)
  let ?s = "startLine c" and ?e = "endLine c"
  let ?R = "rebuild lines (?e + 1) cs f"
  from Cons.prems(1) have b: "p \<le> ?s" "?s < ?e" "?e < length lines"
    and rest: "sections_from (?e + 1) (length lines) cs"
    by simp_all
  from rest Cons.prems(2) b
  have IH: "resolve_loop r (rev cs) lines = Inr (take (?e + 1) lines @ ?R)"
    by (intro Cons.IH) simp_all
  have rc: "r c = Inr (f c)" using Cons.prems(2) by simp
  have t: "take ?s (take (?e + 1) lines @ ?R) = take ?s lines"
    using b by (simp add: min_def)
  have d: "drop (?s + (?e - ?s + 1)) (take (?e + 1) lines @ ?R) = ?R"
    using b by simp
  have pre: "take p lines @ slice lines p ?s = take ?s lines"
    using b take_add [of p "?s - p" lines] by (simp add: slice_def)
  have sp: "splice (take (?e + 1) lines @ ?R) ?s (?e - ?s + 1) (split_lines (f c)) =
      take ?s lines @ split_lines (f c) @ ?R"
    unfolding splice_def t d by (rule refl)
  have "resolve_loop r (rev (c # cs)) lines = resolve_loop r (rev cs @ [c]) lines"
    by simp
  also have "\<dots> = resolve_loop r [c] (take (?e + 1) lines @ ?R)"
    unfolding resolve_loop_append IH by simp
  also have "\<dots> = Inr (splice (take (?e + 1) lines @ ?R) ?s (?e - ?s + 1) (split_lines (f c)))"
    using rc by simp
  also note sp
  also have "take ?s lines @ split_lines (f c) @ ?R = take p lines @ rebuild lines p (c # cs) f"
    using pre by simp
  finally show ?case .
qed

text \<open>
  Claim C8, as amended.  For every text and every resolver that returns on each parsed
  section, the output of \<^const>\<open>resolveConflicts\<close> is, line by line, the input with the
  lines \<open>[startLine, endLine]\<close> of each parsed section replaced by the lines of the
  resolver's output for it, and every line outside the sections kept with its text, in
  its order; going from the last section to the first gives the same text as this
  description from the first to the last.  The lines are joined by a single line feed:
  a carriage return before a line feed is part of the separator and is not kept.
\<close>

theorem resolveConflicts_frame:
  assumes "\<forall>c\<in>set (parseConflicts content). resolver c = Inr (f c)"
  shows "resolveConflicts content resolver =
           Inr (join_lines (rebuild (split_lines content) 0 (parseConflicts content) f))"
proof -
  have "sections_from 0 (length (split_lines content)) (parseConflicts content)"
    unfolding parseConflicts_def by (rule parse_from_sections)
  from resolve_loop_rev [OF this assms] show ?thesis
    by (simp add: resolveConflicts_def)
qed

theorem resolveConflicts_frame_witness:
  "resolveConflicts two_conflicts (\<lambda>c. Inr (theirs c) :: unit + string) =
     Inr (join_lines [''{'', ''  b'', ''  c'', ''  f'', ''}''])"
proof -
  have "\<forall>c\<in>set (parseConflicts two_conflicts). (Inr (theirs c) :: unit + string) = Inr (theirs c)"
    by simp
  from resolveConflicts_frame [of two_conflicts "\<lambda>c. Inr (theirs c) :: unit + string" theirs, OF this]
  have "resolveConflicts two_conflicts (\<lambda>c. Inr (theirs c) :: unit + string) =
      Inr (join_lines (rebuild (split_lines two_conflicts) 0 (parseConflicts two_conflicts) theirs))" .
  also have "rebuild (split_lines two_conflicts) 0 (parseConflicts two_conflicts) theirs =
      [''{'', ''  b'', ''  c'', ''  f'', ''}'']"
    unfolding parseConflicts_two_conflicts unfolding two_conflicts_def by code_simp
  finally show ?thesis .
qed

text \<open>Claim C8 as stated fails for the line-ending structure: a text without any
  conflict section and with a CR LF line ending comes back with a bare LF.\<close>

theorem line_endings_counterexample:
  "parseConflicts (''a'' @ [CR, LF] @ ''b'') = [] \<and>
   resolveConflicts (''a'' @ [CR, LF] @ ''b'') (\<lambda>c. Inr (ours c) :: unit + string) = Inr (''a'' @ [LF] @ ''b'') \<and>
   ''a'' @ [LF] @ ''b'' \<noteq> ''a'' @ [CR, LF] @ ''b''"
  by code_simp

section \<open>Properties of the resolver\<close>

subsection \<open>Objects under construction\<close>

lemma insert_own_not_Nil: "insert_own k v props \<noteq> []"
  by (cases props) (auto split: option.splits if_splits)

lemma map_of_insert_own:
  "map_of props k = None \<Longrightarrow> map_of (insert_own k v props) = (map_of props)(k \<mapsto> v)"
proof (induction props)
  case Nil
  show ?case by simp
next
  case (Cons p props)
  obtain k' v' where p: "p = (k', v')" by (cases p)
  from Cons.prems p have ne: "k \<noteq> k'" and none: "map_of props k = None"
    by (auto split: if_splits)
  from Cons.IH [OF none] ne show ?case
    unfolding p by (auto simp: fun_upd_twist split: option.splits)
qed

lemma lookup_ProtoAccessor: "lookup v k = ProtoAccessor \<Longrightarrow> k = ''__proto__''"
  by (induction v k rule: lookup.induct)
     (auto simp: in_Object_prototype_def in_Array_prototype_def split: option.splits if_splits)

lemma assign_other: "key \<noteq> k \<Longrightarrow> map_of (fst (assign st k v)) key = map_of (fst st) key"
  by (auto simp: assign_def update_conv' map_of_insert_own split: property.splits)

lemma assign_same:
  "k \<noteq> ''__proto__'' \<or> map_of (fst st) k \<noteq> None \<Longrightarrow> map_of (fst (assign st k v)) k = Some v"
  by (auto simp: assign_def update_conv' map_of_insert_own dest: lookup_ProtoAccessor
      split: property.splits)

lemma assign_not_Nil: "fst st \<noteq> [] \<or> k \<noteq> ''__proto__'' \<Longrightarrow> fst (assign st k v) \<noteq> []"
  by (auto simp: assign_def insert_own_not_Nil dest: lookup_ProtoAccessor split: property.splits)


lemma has_iff_read: "has st k \<longleftrightarrow> read st k \<noteq> None"
  by (simp add: has_def read_def has_property_def get_property_def split: property.splits)

lemma own_properties_object_value [simp]: "own_properties (object_value st) = fst st"
  by (simp add: object_value_def)

lemma truthy_object_value [simp]: "truthy (object_value st)"
  by (simp add: object_value_def)

subsection \<open>Resolving one conflict never throws\<close>

lemma smartResolveMeta_returns: "\<exists>s. smartResolveMeta P c = Inr s"
  by (auto simp: smartResolveMeta_def try_catch_def Let_def split: sum.splits)

lemma smartResolveDictionary_returns: "\<exists>s. smartResolveDictionary P c = Inr s"
  by (auto simp: smartResolveDictionary_def try_catch_def Let_def split: sum.splits)

lemma smartResolve_returns: "\<exists>s. smartResolve P c fileName = Inr s"
  using smartResolveMeta_returns smartResolveDictionary_returns
  by (simp add: smartResolve_def)

lemma resolveConflict_returns: "\<exists>s. resolveConflict P options c filePath = Inr s"
  using smartResolve_returns
  by (cases "strategy options") (simp_all add: resolveConflict_def Let_def)

lemma resolve_loop_returns:
  "(\<And>c. \<exists>s. r c = Inr s) \<Longrightarrow> \<exists>ls. resolve_loop r cs lines = Inr ls"
proof (induction cs arbitrary: lines)
  case Nil
  show ?case by simp
next
  case (Cons c cs)
  from Cons.prems obtain s where "r c = Inr s" by blast
  with Cons show ?case by simp
qed

lemma resolveConflicts_returns:
  "\<exists>s. resolveConflicts content (\<lambda>c. resolveConflict P options c filePath) = Inr s"
proof -
  obtain ls where "resolve_loop (\<lambda>c. resolveConflict P options c filePath) (rev (parseConflicts content))
      (split_lines content) = Inr ls"
    using resolve_loop_returns [of "\<lambda>c. resolveConflict P options c filePath"] resolveConflict_returns
    by blast
  then show ?thesis by (simp add: resolveConflicts_def)
qed

subsection \<open>Which fragments are read\<close>

text \<open>
  The text that the smart strategy hands to \<^const>\<open>parseJSONFragment\<close> for a side of a
  conflict in a file of the given name, and the callback it merges with.
\<close>

definition fragment_text :: "string \<Rightarrow> string \<Rightarrow> string" where
  "fragment_text fileName fragment = (if fileName = ''meta.json'' then fragment else cleaned fragment)"

definition merge_callback :: "platform \<Rightarrow> string \<Rightarrow> resolver" where
  "merge_callback P fileName = (if fileName = ''meta.json'' then metaResolver P else dictResolver P)"

text \<open>
  What the specification calls a fragment that parses as structured data: \<^verbatim>\<open>JSON.parse\<close>
  accepts it, as it stands or with an enclosing pair of braces added.
\<close>

definition spec_parses_as_data :: "platform \<Rightarrow> string \<Rightarrow> bool" where
  "spec_parses_as_data P fragment \<longleftrightarrow>
     (case JSON_parse P (trim fragment) of
        Inr v \<Rightarrow> True
      | Inl m \<Rightarrow> (case JSON_parse P (''{'' @ trim fragment @ ''}'') of Inr v \<Rightarrow> True | Inl m' \<Rightarrow> False))"

text \<open>
  What the code takes for one.  A line is an entry line when the pattern of the
  line-by-line reading finds a quoted key, a colon and a value on it.  A text is read
  when \<^verbatim>\<open>JSON.parse\<close> accepts it in the \<^verbatim>\<open>try\<close> block with a truthy result, and also
  when \<^verbatim>\<open>JSON.parse\<close> rejects it there and one of its lines is an entry line with a key
  other than \<^verbatim>\<open>__proto__\<close>.  It is unreadable when \<^verbatim>\<open>JSON.parse\<close> rejects it and none of
  its lines is an entry line (or \<^verbatim>\<open>JSON.parse\<close> accepts it with a falsy result, which
  it never does for a text in braces).
\<close>

definition entry_line :: "string \<Rightarrow> bool" where
  "entry_line line \<longleftrightarrow> line_entry line \<noteq> None"

definition plain_entry_line :: "string \<Rightarrow> bool" where
  "plain_entry_line line \<longleftrightarrow>
     (case line_entry line of None \<Rightarrow> False | Some (k, v) \<Rightarrow> k \<noteq> ''__proto__'')"

definition reads :: "platform \<Rightarrow> string \<Rightarrow> bool" where
  "reads P fragment \<longleftrightarrow>
     (case parse_whole P fragment of
        Inr v \<Rightarrow> truthy v
      | Inl m \<Rightarrow> list_ex plain_entry_line (split_LF fragment))"

definition unreadable :: "platform \<Rightarrow> string \<Rightarrow> bool" where
  "unreadable P fragment \<longleftrightarrow>
     (case parse_whole P fragment of
        Inr v \<Rightarrow> \<not> truthy v
      | Inl m \<Rightarrow> \<not> list_ex entry_line (split_LF fragment))"

lemma key_value_line_keeps:
  "fst st \<noteq> [] \<or> plain_entry_line line \<Longrightarrow> fst (key_value_line P line st) \<noteq> []"
  by (auto simp: key_value_line_def plain_entry_line_def assign_not_Nil split: option.splits)

lemma fold_key_value_line_keeps:
  "fst st \<noteq> [] \<or> list_ex plain_entry_line lines \<Longrightarrow>
     fst (fold (key_value_line P) lines st) \<noteq> []"
proof (induction lines arbitrary: st)
  case Nil
  then show ?case by simp
next
  case (Cons l ls)
  have "fst (key_value_line P l st) \<noteq> [] \<or> list_ex plain_entry_line ls"
    using Cons.prems key_value_line_keeps [of st l P] by auto
  from Cons.IH [OF this] show ?case by simp
qed

lemma fold_key_value_line_idle:
  "\<not> list_ex entry_line lines \<Longrightarrow> fold (key_value_line P) lines st = st"
  by (induction lines arbitrary: st)
     (auto simp: key_value_line_def entry_line_def split: option.splits)

lemma reads_truthy: "reads P fragment \<Longrightarrow> truthy (parseJSONFragment P fragment)"
  using fold_key_value_line_keeps [of "object_literal []" "split_LF fragment" P]
  by (auto simp: reads_def parseJSONFragment_def parse_lines_def Let_def split: sum.splits)

lemma unreadable_falsy: "unreadable P fragment \<Longrightarrow> \<not> truthy (parseJSONFragment P fragment)"
  using fold_key_value_line_idle [of "split_LF fragment" P "object_literal []"]
  by (auto simp: unreadable_def parseJSONFragment_def parse_lines_def Let_def object_literal_def
      split: sum.splits)

lemma smartResolve_unfold:
  assumes "fileName = ''meta.json'' \<or> startsWith fileName ''dictionary.''"
  shows "smartResolve P c fileName =
     (let oursData = parseJSONFragment P (fragment_text fileName (ours c));
          theirsData = parseJSONFragment P (fragment_text fileName (theirs c))
      in if \<not> truthy oursData \<and> \<not> truthy theirsData then Inr (ours c)
         else if \<not> truthy oursData then Inr (theirs c)
         else if \<not> truthy theirsData then Inr (ours c)
         else (case deepMerge (Some (merge_callback P fileName)) (Some oursData) theirsData of
                 Inl e \<Rightarrow> Inr (ours c)
               | Inr merged \<Rightarrow> Inr (formatJSONFragment P merged)))"
proof (cases "fileName = ''meta.json''")
  case True
  then show ?thesis
    by (simp add: smartResolve_def smartResolveMeta_def try_catch_def Let_def
        fragment_text_def merge_callback_def split: sum.splits)
next
  case False
  with assms have "startsWith fileName ''dictionary.''" by simp
  with False show ?thesis
    by (simp add: smartResolve_def smartResolveDictionary_def try_catch_def Let_def
        parseJSFragment_def fragment_text_def merge_callback_def formatJSFragment_def
        split: sum.splits)
qed

text \<open>
  Claim C4, as amended.  For every conflict section under the smart strategy on a
  metadata file (\<^verbatim>\<open>meta.json\<close>) or a dictionary file (name starting with
  \<^verbatim>\<open>dictionary.\<close>), with the fragments of a dictionary normalised first: if one side is
  unreadable and the other is read, the resolution is the fragment of the side that is
  read, verbatim; if both are unreadable, it is the literal fragment of \<^verbatim>\<open>ours\<close>; if
  both are read, it is the printed merge of the two values, or the literal fragment of
  \<^verbatim>\<open>ours\<close> when the merge throws.  Here a fragment that \<^verbatim>\<open>JSON.parse\<close> rejects is read
  all the same when one of its lines holds a quoted key other than \<^verbatim>\<open>__proto__\<close>, a colon
  and a value, and it is unreadable only when no line holds a quoted key, a colon and a
  value.  The resolution of one conflict always returns, for every strategy and file,
  so that the whole-file resolution returns too.
\<close>

theorem smart_merge_fallback:
  assumes "fileName = ''meta.json'' \<or> startsWith fileName ''dictionary.''"
  shows "(unreadable P (fragment_text fileName (ours c)) \<and>
          reads P (fragment_text fileName (theirs c)) \<longrightarrow>
            smartResolve P c fileName = Inr (theirs c)) \<and>
         (reads P (fragment_text fileName (ours c)) \<and>
          unreadable P (fragment_text fileName (theirs c)) \<longrightarrow>
            smartResolve P c fileName = Inr (ours c)) \<and>
         (unreadable P (fragment_text fileName (ours c)) \<and>
          unreadable P (fragment_text fileName (theirs c)) \<longrightarrow>
            smartResolve P c fileName = Inr (ours c)) \<and>
         (reads P (fragment_text fileName (ours c)) \<and>
          reads P (fragment_text fileName (theirs c)) \<longrightarrow>
            smartResolve P c fileName =
              (case deepMerge (Some (merge_callback P fileName))
                      (Some (parseJSONFragment P (fragment_text fileName (ours c))))
                      (parseJSONFragment P (fragment_text fileName (theirs c))) of
                 Inl e \<Rightarrow> Inr (ours c)
               | Inr merged \<Rightarrow> Inr (formatJSONFragment P merged))) \<and>
         (\<exists>s. smartResolve P c fileName = Inr s) \<and>
         (\<exists>s. resolveConflict P options c filePath = Inr s) \<and>
         (\<exists>s. resolveConflicts content (\<lambda>c. resolveConflict P options c filePath) = Inr s)"
proof -
  note u = smartResolve_unfold [OF assms, of P c]
  note t = reads_truthy [of P "fragment_text fileName (ours c)"]
    reads_truthy [of P "fragment_text fileName (theirs c)"]
  note f = unreadable_falsy [of P "fragment_text fileName (ours c)"]
    unreadable_falsy [of P "fragment_text fileName (theirs c)"]
  have "unreadable P (fragment_text fileName (ours c)) \<and>
          reads P (fragment_text fileName (theirs c)) \<longrightarrow>
            smartResolve P c fileName = Inr (theirs c)"
    unfolding u using t f by (simp add: Let_def)
  moreover have "reads P (fragment_text fileName (ours c)) \<and>
          unreadable P (fragment_text fileName (theirs c)) \<longrightarrow>
            smartResolve P c fileName = Inr (ours c)"
    unfolding u using t f by (simp add: Let_def)
  moreover have "unreadable P (fragment_text fileName (ours c)) \<and>
          unreadable P (fragment_text fileName (theirs c)) \<longrightarrow>
            smartResolve P c fileName = Inr (ours c)"
    unfolding u using t f by (simp add: Let_def)
  moreover have "reads P (fragment_text fileName (ours c)) \<and>
          reads P (fragment_text fileName (theirs c)) \<longrightarrow>
            smartResolve P c fileName =
              (case deepMerge (Some (merge_callback P fileName))
                      (Some (parseJSONFragment P (fragment_text fileName (ours c))))
                      (parseJSONFragment P (fragment_text fileName (theirs c))) of
                 Inl e \<Rightarrow> Inr (ours c)
               | Inr merged \<Rightarrow> Inr (formatJSONFragment P merged))"
    unfolding u using t f by (simp add: Let_def)
  moreover note smartResolve_returns [of P c fileName] resolveConflict_returns [of P options c filePath]
    resolveConflicts_returns [of content P options filePath]
  ultimately show ?thesis by blast
qed

subsection \<open>What deepMerge leaves under each key\<close>

text \<open>The value that one turn of the loop stores under \<open>key\<close>, given what reading the
  result under that key gives.\<close>

definition entry_value :: "resolver option \<Rightarrow> json option \<Rightarrow> string \<Rightarrow> json \<Rightarrow> js_error + json" where
  "entry_value resolver current key val =
     (if is_plain_object val then deepMerge resolver current val
      else if resolver \<noteq> None \<and> current \<noteq> None then the resolver key (the current) val
      else Inr val)"

lemma merge_entries_step:
  "merge_entries resolver ((key, val) # rest) result =
     (case entry_value resolver (read result key) key val of
        Inl e \<Rightarrow> Inl e
      | Inr v \<Rightarrow> merge_entries resolver rest (assign result key v))"
  by (simp add: entry_value_def has_iff_read)

text \<open>The loop leaves alone the own properties whose keys the source does not have.\<close>

lemma merge_entries_other:
  "merge_entries resolver kvs result = Inr res \<Longrightarrow> key \<notin> fst ` set kvs \<Longrightarrow>
     map_of (fst res) key = map_of (fst result) key"
proof (induction kvs arbitrary: result)
  case Nil
  then show ?case by simp
next
  case (Cons kv kvs)
  obtain k val where kv: "kv = (k, val)" by (cases kv)
  from Cons.prems(1) obtain v where v: "entry_value resolver (read result k) k val = Inr v"
    and rest: "merge_entries resolver kvs (assign result k v) = Inr res"
    unfolding kv merge_entries_step by (auto split: sum.splits)
  from Cons.prems(2) kv have "key \<noteq> k" "key \<notin> fst ` set kvs" by auto
  with Cons.IH [OF rest] show ?case by (simp add: assign_other)
qed


text \<open>Under any key of the source but \<^verbatim>\<open>__proto__\<close>, the loop leaves what the turn for
  that key computes, from whatever reading the result gives at that turn.\<close>

lemma merge_entries_at:
  "merge_entries resolver kvs result = Inr res \<Longrightarrow> distinct (map fst kvs) \<Longrightarrow>
     (key, val) \<in> set kvs \<Longrightarrow> key \<noteq> ''__proto__'' \<Longrightarrow>
     \<exists>current v. entry_value resolver current key val = Inr v \<and> map_of (fst res) key = Some v"
proof (induction kvs arbitrary: result)
  case Nil
  then show ?case by simp
next
  case (Cons kv kvs)
  obtain k val' where kv: "kv = (k, val')" by (cases kv)
  from Cons.prems(1) obtain v where v: "entry_value resolver (read result k) k val' = Inr v"
    and rest: "merge_entries resolver kvs (assign result k v) = Inr res"
    unfolding kv merge_entries_step by (auto split: sum.splits)
  from Cons.prems(2) kv have d: "k \<notin> fst ` set kvs" "distinct (map fst kvs)" by auto
  show ?case
  proof (cases "(key, val) = kv")
    case True
    with kv have eq: "key = k" "val = val'" by simp_all
    from merge_entries_other [OF rest d(1)] Cons.prems(4) eq have "map_of (fst res) k = Some v"
      by (simp add: assign_same)
    with v eq show ?thesis by blast
  next
    case False
    with Cons.prems(3) have mem: "(key, val) \<in> set kvs" by simp
    from Cons.IH [OF rest d(2) mem Cons.prems(4)] show ?thesis .
  qed
qed

lemma deepMerge_plain_object:
  assumes "is_plain_object source"
  shows "deepMerge resolver target source =
     (case merge_entries resolver (own_properties source) (object_literal (spread_object target)) of
        Inl e \<Rightarrow> Inl e
      | Inr result \<Rightarrow> Inr (object_value result))"
  using assms by (cases source) simp_all


lemma deepMerge_object_at:
  assumes "deepMerge resolver target source = Inr merged" and "is_plain_object source"
    and "distinct (map fst (own_properties source))"
    and "(key, val) \<in> set (own_properties source)"
    and "key \<noteq> ''__proto__''"
  shows "\<exists>current v. entry_value resolver current key val = Inr v \<and>
           map_of (own_properties merged) key = Some v"
proof -
  from assms(1) obtain res
    where res: "merge_entries resolver (own_properties source) (object_literal (spread_object target)) = Inr res"
    and m: "merged = object_value res"
    unfolding deepMerge_plain_object [OF assms(2)] by (auto split: sum.splits)
  from merge_entries_at [OF res assms(3,4,5)] m show ?thesis by simp
qed

lemma deepMerge_object_other:
  assumes "deepMerge resolver target source = Inr merged" and "is_plain_object source"
    and "key \<notin> fst ` set (own_properties source)"
  shows "map_of (own_properties merged) key = map_of (spread_object target) key"
proof -
  from assms(1) obtain res
    where res: "merge_entries resolver (own_properties source) (object_literal (spread_object target)) = Inr res"
    and m: "merged = object_value res"
    unfolding deepMerge_plain_object [OF assms(2)] by (auto split: sum.splits)
  from merge_entries_other [OF res assms(3)] m show ?thesis by (simp add: object_literal_def)
qed

text \<open>For a value of \<^verbatim>\<open>theirs\<close> that is neither an object nor an array nor
  \<^verbatim>\<open>null\<close>, both callbacks answer \<^verbatim>\<open>theirs\<close>; the callback of the dictionary merge
  does so under every key but \<^verbatim>\<open>content\<close>, whatever the value.\<close>

lemma metaResolver_leaf:
  "\<not> typeof_object theirs_value \<Longrightarrow> metaResolver P key ours_value theirs_value = Inr theirs_value"
  by (simp add: metaResolver_def)

lemma dictResolver_leaf:
  "\<not> typeof_object theirs_value \<or> key \<noteq> ''content'' \<Longrightarrow>
     dictResolver P key ours_value theirs_value = Inr theirs_value"
  by (auto simp: dictResolver_def)

lemma entry_value_leaf_meta:
  "\<not> typeof_object val \<Longrightarrow> entry_value (Some (metaResolver P)) current key val = Inr val"
  by (cases val) (auto simp: entry_value_def metaResolver_leaf)

lemma entry_value_leaf_dict:
  "\<not> typeof_object val \<Longrightarrow> entry_value (Some (dictResolver P)) current key val = Inr val"
  by (cases val) (auto simp: entry_value_def dictResolver_leaf)



subsection \<open>resolveFile\<close>

text \<open>
  Claim C6, as amended.  For every file that can be read and whose size is within the
  limit of 10 MB: if \<^const>\<open>hasConflictMarkers\<close> is false of its content, \<open>resolveFile\<close>
  succeeds with \<open>conflictsResolved = 0\<close>; if markers are present but
  \<^const>\<open>parseConflicts\<close> returns no section, it fails with the error ``Invalid conflict
  markers detected''.  Neither touches the file system.  A file beyond the limit is
  refused with ``File too large'' before its content is looked at, with or without
  markers.
\<close>

theorem resolveFile_clean_or_malformed:
  assumes "files fs filePath = Some f"
  shows "(byte_size f \<le> MAX_FILE_SIZE \<and> \<not> hasConflictMarkers (file_text f) \<longrightarrow>
            resolveFile P options uuid filePath fs =
              (\<lparr>success = True, conflictsResolved = 0, error = None,
                details = Some ''No conflicts found''\<rparr>, fs)) \<and>
         (byte_size f \<le> MAX_FILE_SIZE \<and> hasConflictMarkers (file_text f) \<and>
          parseConflicts (file_text f) = [] \<longrightarrow>
            resolveFile P options uuid filePath fs =
              (\<lparr>success = False, conflictsResolved = 0,
                error = Some ''Invalid conflict markers detected'', details = None\<rparr>, fs)) \<and>
         (MAX_FILE_SIZE < byte_size f \<longrightarrow>
            resolveFile P options uuid filePath fs =
              (\<lparr>success = False, conflictsResolved = 0,
                error = Some (''File too large: '' @ show_nat (byte_size f) @ '' bytes (max: '' @
                              show_nat MAX_FILE_SIZE @ '')''),
                details = None\<rparr>, fs))"
  using assms
  by (simp add: resolveFile_def statSync_def readFileSync_def failed_def Let_def)

lemma backup_path_differs: "filePath @ ''.backup.'' @ uuid \<noteq> filePath"
proof
  assume "filePath @ ''.backup.'' @ uuid = filePath"
  then have "length (filePath @ ''.backup.'' @ uuid) = length filePath" by simp
  then show False by simp
qed

text \<open>The run of \<^const>\<open>resolveFile\<close> up to a validation that fails.\<close>

lemma resolveFile_invalid_run:
  assumes "files fs filePath = Some f" and "byte_size f \<le> MAX_FILE_SIZE"
    and "hasConflictMarkers (file_text f)" and "parseConflicts (file_text f) \<noteq> []"
    and "resolveConflicts (file_text f) (\<lambda>c. resolveConflict P options c filePath) = Inr candidate"
    and "validateResolvedContent P candidate filePath = Some err"
    and "\<not> (backup options \<and> \<not> dryRun options \<and> write_denied fs (filePath @ ''.backup.'' @ uuid))"
  shows "resolveFile P options uuid filePath fs =
      (failed err,
       if backup options \<and> \<not> dryRun options
       then fs\<lparr>files := (files fs)(filePath @ ''.backup.'' @ uuid \<mapsto>
                   \<lparr>byte_size = length (file_text f), file_text = file_text f\<rparr>)\<rparr>
       else fs)"
  using assms
  by (auto simp: resolveFile_def statSync_def readFileSync_def writeFileSync_def Let_def)

text \<open>
  Claim C7, as amended.  When the run reaches the validation (the file is read, within
  the size limit, with markers and at least one section, and the backup, if asked for,
  could be written) and the resolved text fails the validation for its format,
  \<open>resolveFile\<close> returns \<open>success = false\<close>, no conflicts resolved, and the error
  ``Invalid syntax after resolution: ...'' carrying the parser's message; the resolved
  text is written nowhere and the file itself is as it was.  The one thing written is
  the backup copy of the original content, when \<^verbatim>\<open>backup\<close> is set and \<^verbatim>\<open>dryRun\<close> is
  not: it is made before the conflicts are resolved and stays.
\<close>

theorem invalid_candidate_discarded:
  assumes "files fs filePath = Some f" and "byte_size f \<le> MAX_FILE_SIZE"
    and "hasConflictMarkers (file_text f)" and "parseConflicts (file_text f) \<noteq> []"
    and "resolveConflicts (file_text f) (\<lambda>c. resolveConflict P options c filePath) = Inr candidate"
    and "validateResolvedContent P candidate filePath = Some err"
    and "\<not> (backup options \<and> \<not> dryRun options \<and> write_denied fs (filePath @ ''.backup.'' @ uuid))"
  shows "fst (resolveFile P options uuid filePath fs) =
           \<lparr>success = False, conflictsResolved = 0, error = Some err, details = None\<rparr> \<and>
         (\<exists>msg. err = ''Invalid syntax after resolution: '' @ msg) \<and>
         files (snd (resolveFile P options uuid filePath fs)) filePath = Some f \<and>
         snd (resolveFile P options uuid filePath fs) =
           (if backup options \<and> \<not> dryRun options
            then fs\<lparr>files := (files fs)(filePath @ ''.backup.'' @ uuid \<mapsto>
                        \<lparr>byte_size = length (file_text f), file_text = file_text f\<rparr>)\<rparr>
            else fs)"
proof -
  have msg: "\<exists>msg. err = ''Invalid syntax after resolution: '' @ msg"
    using assms(6) by (auto simp: validateResolvedContent_def Let_def split: sum.splits)
  show ?thesis
    unfolding resolveFile_invalid_run [OF assms]
    using msg assms(1) backup_path_differs [of filePath uuid]
    by (simp add: failed_def)
qed

subsection \<open>Concrete inputs\<close>

definition smart_options :: ResolverOptions where
  "smart_options = \<lparr>strategy = Smart, verbose = False, dryRun = False, backup = False\<rparr>"

definition ours_options :: ResolverOptions where
  "ours_options = \<lparr>strategy = Ours, verbose = False, dryRun = False, backup = False\<rparr>"

definition fs_with :: "string \<Rightarrow> string \<Rightarrow> file_system" where
  "fs_with path content =
     \<lparr>files = (\<lambda>p. if p = path then Some \<lparr>byte_size = length content, file_text = content\<rparr> else None),
      write_denied = (\<lambda>p. False)\<rparr>"

text \<open>A metadata file whose conflict leaves a comma before the closing brace when the
  side of \<^verbatim>\<open>ours\<close> is taken.\<close>

definition comma_conflict :: string where
  "comma_conflict = join_lines
     [''{'', ''<<<<<<< HEAD'', ''  \"a\": 1,'', ''======='', ''  \"a\": 2'', ''>>>>>>> branch'', ''}'']"

lemma comma_conflict_facts:
  "hasConflictMarkers comma_conflict"
  "parseConflicts comma_conflict \<noteq> []"
  "resolveConflicts comma_conflict (\<lambda>c. resolveConflict reference_platform ours_options c ''lingo/meta.json'') =
     Inr (join_lines [''{'', ''  \"a\": 1,'', ''}''])"
  "resolveConflicts comma_conflict
     (\<lambda>c. resolveConflict reference_platform (ours_options\<lparr>backup := True\<rparr>) c ''lingo/meta.json'') =
     Inr (join_lines [''{'', ''  \"a\": 1,'', ''}''])"
  "validateResolvedContent reference_platform (join_lines [''{'', ''  \"a\": 1,'', ''}'']) ''lingo/meta.json'' =
     Some ''Invalid syntax after resolution: Unexpected token in JSON''"
  unfolding comma_conflict_def ours_options_def by code_simp+

lemma comma_conflict_small: "length comma_conflict \<le> MAX_FILE_SIZE"
  by (simp add: comma_conflict_def MAX_FILE_SIZE_def)

theorem invalid_candidate_discarded_witness:
  "resolveFile reference_platform ours_options ''u1'' ''lingo/meta.json''
     (fs_with ''lingo/meta.json'' comma_conflict) =
   (\<lparr>success = False, conflictsResolved = 0,
     error = Some ''Invalid syntax after resolution: Unexpected token in JSON'', details = None\<rparr>,
    fs_with ''lingo/meta.json'' comma_conflict)"
proof -
  let ?fs = "fs_with ''lingo/meta.json'' comma_conflict"
  let ?f = "\<lparr>byte_size = length comma_conflict, file_text = comma_conflict\<rparr>"
  have 1: "files ?fs ''lingo/meta.json'' = Some ?f" by (simp add: fs_with_def)
  have 2: "byte_size ?f \<le> MAX_FILE_SIZE" using comma_conflict_small by simp
  have 3: "hasConflictMarkers (file_text ?f)" using comma_conflict_facts(1) by simp
  have 4: "parseConflicts (file_text ?f) \<noteq> []" using comma_conflict_facts(2) by simp
  have 5: "resolveConflicts (file_text ?f)
      (\<lambda>c. resolveConflict reference_platform ours_options c ''lingo/meta.json'') =
      Inr (join_lines [''{'', ''  \"a\": 1,'', ''}''])"
    using comma_conflict_facts(3) by simp
  have 7: "\<not> (backup ours_options \<and> \<not> dryRun ours_options \<and>
      write_denied ?fs (''lingo/meta.json'' @ ''.backup.'' @ ''u1''))"
    by (simp add: ours_options_def)
  from invalid_candidate_discarded [OF 1 2 3 4 5 comma_conflict_facts(5) 7]
  show ?thesis
    by (simp add: ours_options_def prod_eq_iff)
qed

text \<open>Claim C7 as stated fails where it says that nothing is written: with the backup
  asked for, the failed run leaves a new file behind.\<close>

theorem backup_written_counterexample:
  "success (fst (resolveFile reference_platform (ours_options\<lparr>backup := True\<rparr>) ''u1'' ''lingo/meta.json''
     (fs_with ''lingo/meta.json'' comma_conflict))) = False \<and>
   files (fs_with ''lingo/meta.json'' comma_conflict) ''lingo/meta.json.backup.u1'' = None \<and>
   files (snd (resolveFile reference_platform (ours_options\<lparr>backup := True\<rparr>) ''u1'' ''lingo/meta.json''
     (fs_with ''lingo/meta.json'' comma_conflict))) ''lingo/meta.json.backup.u1'' =
     Some \<lparr>byte_size = length comma_conflict, file_text = comma_conflict\<rparr>"
proof -
  let ?fs = "fs_with ''lingo/meta.json'' comma_conflict"
  let ?f = "\<lparr>byte_size = length comma_conflict, file_text = comma_conflict\<rparr>"
  let ?o = "ours_options\<lparr>backup := True\<rparr>"
  have 1: "files ?fs ''lingo/meta.json'' = Some ?f" by (simp add: fs_with_def)
  have 2: "byte_size ?f \<le> MAX_FILE_SIZE" using comma_conflict_small by simp
  have 3: "hasConflictMarkers (file_text ?f)" using comma_conflict_facts(1) by simp
  have 4: "parseConflicts (file_text ?f) \<noteq> []" using comma_conflict_facts(2) by simp
  have 5: "resolveConflicts (file_text ?f)
      (\<lambda>c. resolveConflict reference_platform ?o c ''lingo/meta.json'') =
      Inr (join_lines [''{'', ''  \"a\": 1,'', ''}''])"
    using comma_conflict_facts(4) by simp
  have 7: "\<not> (backup ?o \<and> \<not> dryRun ?o \<and>
      write_denied ?fs (''lingo/meta.json'' @ ''.backup.'' @ ''u1''))"
    by (simp add: fs_with_def)
  from resolveFile_invalid_run [OF 1 2 3 4 5 comma_conflict_facts(5) 7]
  show ?thesis
    by (simp add: ours_options_def failed_def fs_with_def)
qed

text \<open>A file without markers, a file with markers out of order, and a file beyond the
  size limit.\<close>

definition clean_text :: string where
  "clean_text = join_lines [''{'', ''  \"version\": 1'', ''}'']"

definition malformed_text :: string where
  "malformed_text = join_lines [''>>>>>>> branch'', ''  \"a\": 2'', ''======='', ''<<<<<<< HEAD'']"

definition big_node :: file_node where
  "big_node = \<lparr>byte_size = 10485761, file_text = replicate 10485761 (CHR ''a'')\<rparr>"

lemma clean_and_malformed_facts:
  "\<not> hasConflictMarkers clean_text"
  "hasConflictMarkers malformed_text"
  "parseConflicts malformed_text = []"
  unfolding clean_text_def malformed_text_def by code_simp+

lemma split_lines_replicate_a: "split_lines (replicate n (CHR ''a'')) = [replicate n (CHR ''a'')]"
  by (induction n) (simp_all add: LF_def CR_def)

lemma not_marker_replicate_a:
  "\<not> CONFLICT_START (replicate n (CHR ''a''))" "\<not> CONFLICT_MIDDLE (replicate n (CHR ''a''))"
  "\<not> CONFLICT_END (replicate n (CHR ''a''))"
proof -
  have "set (replicate n (CHR ''a'')) \<subseteq> {CHR ''a''}" by auto
  then have a: "set (take 8 (replicate n (CHR ''a''))) \<subseteq> {CHR ''a''}"
    using set_take_subset by fast
  show "\<not> CONFLICT_START (replicate n (CHR ''a''))"
  proof
    assume "CONFLICT_START (replicate n (CHR ''a''))"
    then have "take 8 (replicate n (CHR ''a'')) = ''<<<<<<< ''" by (simp add: CONFLICT_START_def)
    with a show False by simp
  qed
  show "\<not> CONFLICT_END (replicate n (CHR ''a''))"
  proof
    assume "CONFLICT_END (replicate n (CHR ''a''))"
    then have "take 8 (replicate n (CHR ''a'')) = ''>>>>>>> ''" by (simp add: CONFLICT_END_def)
    with a show False by simp
  qed
  show "\<not> CONFLICT_MIDDLE (replicate n (CHR ''a''))"
  proof
    assume "CONFLICT_MIDDLE (replicate n (CHR ''a''))"
    then have "replicate n (CHR ''a'') = ''=======''" by (simp add: CONFLICT_MIDDLE_def)
    then have "set (replicate n (CHR ''a'')) = set ''=======''" by simp
    then show False by (cases n) auto
  qed
qed

lemma no_markers_replicate_a: "\<not> hasConflictMarkers (replicate n (CHR ''a''))"
  by (simp add: hasConflictMarkers_def split_lines_replicate_a scan_line_def scan_init_def
      not_marker_replicate_a)

theorem resolveFile_clean_or_malformed_witness:
  "resolveFile reference_platform smart_options ''u1'' ''lingo/meta.json''
     (fs_with ''lingo/meta.json'' clean_text) =
   (\<lparr>success = True, conflictsResolved = 0, error = None, details = Some ''No conflicts found''\<rparr>,
    fs_with ''lingo/meta.json'' clean_text) \<and>
   resolveFile reference_platform smart_options ''u1'' ''lingo/meta.json''
     (fs_with ''lingo/meta.json'' malformed_text) =
   (\<lparr>success = False, conflictsResolved = 0, error = Some ''Invalid conflict markers detected'',
     details = None\<rparr>,
    fs_with ''lingo/meta.json'' malformed_text)"
proof -
  have c: "files (fs_with ''lingo/meta.json'' clean_text) ''lingo/meta.json'' =
      Some \<lparr>byte_size = length clean_text, file_text = clean_text\<rparr>"
    by (simp add: fs_with_def)
  have m: "files (fs_with ''lingo/meta.json'' malformed_text) ''lingo/meta.json'' =
      Some \<lparr>byte_size = length malformed_text, file_text = malformed_text\<rparr>"
    by (simp add: fs_with_def)
  have s: "length clean_text \<le> MAX_FILE_SIZE" "length malformed_text \<le> MAX_FILE_SIZE"
    by (simp_all add: clean_text_def malformed_text_def MAX_FILE_SIZE_def)
  from resolveFile_clean_or_malformed [OF c, of reference_platform smart_options "''u1''"]
    resolveFile_clean_or_malformed [OF m, of reference_platform smart_options "''u1''"]
    s clean_and_malformed_facts
  show ?thesis by simp
qed

text \<open>Claim C6 as stated fails for a file beyond the size limit: it has no conflict
  marker, and \<open>resolveFile\<close> does not succeed on it.\<close>

theorem oversized_clean_file_counterexample:
  "\<not> hasConflictMarkers (file_text big_node) \<and>
   resolveFile reference_platform smart_options ''u1'' ''lingo/meta.json''
     \<lparr>files = (\<lambda>p. if p = ''lingo/meta.json'' then Some big_node else None),
      write_denied = (\<lambda>p. False)\<rparr> =
   (\<lparr>success = False, conflictsResolved = 0,
     error = Some ''File too large: 10485761 bytes (max: 10485760)'', details = None\<rparr>,
    \<lparr>files = (\<lambda>p. if p = ''lingo/meta.json'' then Some big_node else None),
     write_denied = (\<lambda>p. False)\<rparr>)"
proof -
  have "\<not> hasConflictMarkers (file_text big_node)"
    unfolding big_node_def using no_markers_replicate_a [of 10485761] by simp
  moreover have "show_nat 10485761 = ''10485761''" "show_nat 10485760 = ''10485760''"
    by (simp_all add: show_nat.simps)
  ultimately show ?thesis
    by (simp add: resolveFile_def statSync_def MAX_FILE_SIZE_def failed_def big_node_def)
qed

subsection \<open>The merges on concrete fragments\<close>

definition section_of :: "string \<Rightarrow> string \<Rightarrow> ConflictSection" where
  "section_of ours_text theirs_text =
     \<lparr>ours = ours_text, theirs = theirs_text, base = None, startLine = 0, endLine = 4\<rparr>"

definition meta_conflict :: ConflictSection where
  "meta_conflict =
     \<lparr>ours = ''\"A\": {\"hash\": \"h1\", \"content\": \"much longer content\"}'',
      theirs = ''\"A\": {\"hash\": \"h2\", \"content\": \"short\"}'',
      base = None, startLine = 0, endLine = 4\<rparr>"

definition dictionary_conflict :: ConflictSection where
  "dictionary_conflict =
     \<lparr>ours = ''k: {content: {en: 'Hello there', es: 'Hola'}, hash: 'h1'}'',
      theirs = ''k: {content: {en: 'Hi', fr: 'Bonjour'}, hash: 'h2'}'',
      base = None, startLine = 0, endLine = 4\<rparr>"

text \<open>The callback of the metadata merge does prefer the scope with the longer content
  when it is handed two scopes.\<close>

lemma metaResolver_prefers_longer:
  assumes "map_of ours_scope ''content'' = Some (JStr oc)" and "oc \<noteq> []"
    and "map_of theirs_scope ''content'' = Some (JStr tc)" and "tc \<noteq> []"
  shows "metaResolver P key (JObj ours_scope) (JObj theirs_scope) =
           Inr (if length oc < length tc then JObj theirs_scope else JObj ours_scope)"
  using assms
  by (simp add: metaResolver_def both_contents_def length_gt_def get_property_def)

text \<open>But \<^const>\<open>deepMerge\<close> descends into a scope that both sides define and asks the
  callback field by field, where it answers \<^verbatim>\<open>theirs\<close>: the content of the merged
  scope is the content of \<^verbatim>\<open>theirs\<close>, whatever the lengths.\<close>

lemma meta_merge_content_from_theirs:
  assumes "deepMerge (Some (metaResolver P)) (Some oursData) theirsData = Inr merged"
    and "is_plain_object theirsData"
    and "distinct (map fst (own_properties theirsData))"
    and "(scopeKey, theirScope) \<in> set (own_properties theirsData)"
    and "scopeKey \<noteq> ''__proto__''"
    and "is_plain_object theirScope"
    and "distinct (map fst (own_properties theirScope))"
    and "(''content'', JStr tc) \<in> set (own_properties theirScope)"
  shows "\<exists>mergedScope.
           map_of (own_properties merged) scopeKey = Some mergedScope \<and>
           map_of (own_properties mergedScope) ''content'' = Some (JStr tc)"
proof -
  from deepMerge_object_at [OF assms(1-5)]
  obtain current v where res: "map_of (own_properties merged) scopeKey = Some v"
    and v: "entry_value (Some (metaResolver P)) current scopeKey theirScope = Inr v"
    by blast
  from v assms(6) have "deepMerge (Some (metaResolver P)) current theirScope = Inr v"
    by (simp add: entry_value_def)
  from deepMerge_object_at [OF this assms(6-8)]
  obtain current' v' where res': "map_of (own_properties v) ''content'' = Some v'"
    and v': "entry_value (Some (metaResolver P)) current' ''content'' (JStr tc) = Inr v'"
    by auto
  from v' have "v' = JStr tc" by (simp add: entry_value_leaf_meta)
  with res res' show ?thesis by blast
qed

text \<open>
  Claim C1 fails on the code (a defect of the code, see the two lemmas above).  The
  metadata smart merge of a section whose two sides define scope \<^verbatim>\<open>A\<close>, the side of
  \<^verbatim>\<open>ours\<close> with the longer content, returns the scope with the hash and the shorter
  content of \<^verbatim>\<open>theirs\<close>.
\<close>

theorem meta_longer_ours_replaced:
  "smartResolveMeta reference_platform meta_conflict =
     Inr (''        \"A\": {'' @ [LF] @
          ''                  \"hash\": \"h2\",'' @ [LF] @
          ''                  \"content\": \"short\"'' @ [LF] @
          ''        }'')"
  unfolding meta_conflict_def by code_simp

text \<open>The callback of the dictionary merge does merge two locale maps translation by
  translation, keeping the longer one.\<close>

lemma dictResolver_keeps_longer:
  "dictResolver reference_platform ''content''
     (JObj [(''en'', JStr ''Hello there''), (''es'', JStr ''Hola'')])
     (JObj [(''en'', JStr ''Hi''), (''fr'', JStr ''Bonjour'')]) =
   Inr (JObj [(''en'', JStr ''Hello there''), (''es'', JStr ''Hola''), (''fr'', JStr ''Bonjour'')])"
  by code_simp

text \<open>But \<^const>\<open>deepMerge\<close> descends into the locale map as into any object, and under
  a locale the callback answers \<^verbatim>\<open>theirs\<close>: a translation of \<^verbatim>\<open>theirs\<close> replaces the
  one of \<^verbatim>\<open>ours\<close>, whatever their lengths, and an empty one too.\<close>

lemma dictionary_merge_translation_from_theirs:
  assumes "deepMerge (Some (dictResolver P)) (Some oursData) theirsData = Inr merged"
    and "is_plain_object theirsData"
    and "distinct (map fst (own_properties theirsData))"
    and "(entryKey, theirEntry) \<in> set (own_properties theirsData)"
    and "entryKey \<noteq> ''__proto__''"
    and "is_plain_object theirEntry"
    and "distinct (map fst (own_properties theirEntry))"
    and "(''content'', theirLocales) \<in> set (own_properties theirEntry)"
    and "is_plain_object theirLocales"
    and "distinct (map fst (own_properties theirLocales))"
    and "(locale, JStr translation) \<in> set (own_properties theirLocales)"
    and "locale \<noteq> ''__proto__''"
  shows "\<exists>mergedEntry mergedLocales.
           map_of (own_properties merged) entryKey = Some mergedEntry \<and>
           map_of (own_properties mergedEntry) ''content'' = Some mergedLocales \<and>
           map_of (own_properties mergedLocales) locale = Some (JStr translation)"
proof -
  let ?r = "Some (dictResolver P)"
  from deepMerge_object_at [OF assms(1-5)]
  obtain current v where res: "map_of (own_properties merged) entryKey = Some v"
    and v: "entry_value ?r current entryKey theirEntry = Inr v"
    by blast
  from v assms(6) have "deepMerge ?r current theirEntry = Inr v"
    by (simp add: entry_value_def)
  from deepMerge_object_at [OF this assms(6-8)]
  obtain current' v' where res': "map_of (own_properties v) ''content'' = Some v'"
    and v': "entry_value ?r current' ''content'' theirLocales = Inr v'"
    by auto
  from v' assms(9) have "deepMerge ?r current' theirLocales = Inr v'"
    by (simp add: entry_value_def)
  from deepMerge_object_at [OF this assms(9-12)]
  obtain current'' v'' where res'': "map_of (own_properties v') locale = Some v''"
    and v'': "entry_value ?r current'' locale (JStr translation) = Inr v''"
    by blast
  from v'' have "v'' = JStr translation" by (simp add: entry_value_leaf_dict)
  with res res' res'' show ?thesis by blast
qed

text \<open>
  Claim C2 fails on the code (a defect of the code, see the two lemmas above).  The
  dictionary smart merge of a section whose two sides define entry \<^verbatim>\<open>k\<close> with an
  English translation, longer on the side of \<^verbatim>\<open>ours\<close>, returns the entry with the
  shorter translation of \<^verbatim>\<open>theirs\<close>; the locales present on one side only are kept.
\<close>

theorem dictionary_shorter_theirs_replaces:
  "smartResolveDictionary reference_platform dictionary_conflict =
     Inr (''        \"k\": {'' @ [LF] @
          ''                  \"content\": {'' @ [LF] @
          ''                            \"en\": \"Hi\",'' @ [LF] @
          ''                            \"es\": \"Hola\",'' @ [LF] @
          ''                            \"fr\": \"Bonjour\"'' @ [LF] @
          ''                  },'' @ [LF] @
          ''                  \"hash\": \"h2\"'' @ [LF] @
          ''        }'')"
  unfolding dictionary_conflict_def by code_simp



text \<open>Five conflicts for the cases of claim C4: one side unreadable (on either side, in
  a metadata and in a dictionary file), both sides unreadable, and a merge that throws
  (the callback reads a property of \<^verbatim>\<open>null\<close>).\<close>

theorem smart_merge_fallback_witness:
  "reads reference_platform ''\"A\": {\"hash\": \"h1\"}'' \<and>
   unreadable reference_platform ''<<< not a fragment >>>'' \<and>
   reads reference_platform (cleaned ''k: {hash: 'h1'}'') \<and>
   unreadable reference_platform (cleaned ''<<< not a fragment >>>'') \<and>
   reads reference_platform ''\"A\": null'' \<and>
   smartResolve reference_platform
     (section_of ''\"A\": {\"hash\": \"h1\"}'' ''<<< not a fragment >>>'') ''meta.json'' =
     Inr ''\"A\": {\"hash\": \"h1\"}'' \<and>
   smartResolve reference_platform
     (section_of ''<<< not a fragment >>>'' ''\"A\": {\"hash\": \"h1\"}'') ''meta.json'' =
     Inr ''\"A\": {\"hash\": \"h1\"}'' \<and>
   smartResolve reference_platform
     (section_of ''<<< not a fragment >>>'' ''>>> nor this <<<'') ''meta.json'' =
     Inr ''<<< not a fragment >>>'' \<and>
   smartResolve reference_platform
     (section_of ''k: {hash: 'h1'}'' ''<<< not a fragment >>>'') ''dictionary.js'' =
     Inr ''k: {hash: 'h1'}'' \<and>
   smartResolve reference_platform
     (section_of ''\"A\": {\"hash\": \"h1\"}'' ''\"A\": null'') ''meta.json'' =
     Inr ''\"A\": {\"hash\": \"h1\"}''"
proof -
  let ?P = reference_platform
  have r: "reads ?P ''\"A\": {\"hash\": \"h1\"}''"
    "reads ?P (cleaned ''k: {hash: 'h1'}'')"
    "reads ?P ''\"A\": null''"
    by code_simp+
  have u: "unreadable ?P ''<<< not a fragment >>>''"
    "unreadable ?P ''>>> nor this <<<''"
    "unreadable ?P (cleaned ''<<< not a fragment >>>'')"
    by code_simp+
  have t: "deepMerge (Some (merge_callback ?P ''meta.json''))
      (Some (parseJSONFragment ?P ''\"A\": {\"hash\": \"h1\"}''))
      (parseJSONFragment ?P ''\"A\": null'') =
      Inl (TypeError (''Cannot read properties of null (reading '' @ [CHR 0x27] @ ''hash'' @ [CHR 0x27] @ '')''))"
    by code_simp
  have m: "''meta.json'' = ''meta.json'' \<or> startsWith ''meta.json'' ''dictionary.''" by simp
  have d: "''dictionary.js'' = ''meta.json'' \<or> startsWith ''dictionary.js'' ''dictionary.''"
    by (simp add: startsWith_def)
  have n: "''dictionary.js'' \<noteq> ''meta.json''" by simp
  from smart_merge_fallback
         [OF m, of ?P "section_of ''\"A\": {\"hash\": \"h1\"}'' ''<<< not a fragment >>>''"]
       smart_merge_fallback
         [OF m, of ?P "section_of ''<<< not a fragment >>>'' ''\"A\": {\"hash\": \"h1\"}''"]
       smart_merge_fallback
         [OF m, of ?P "section_of ''<<< not a fragment >>>'' ''>>> nor this <<<''"]
       smart_merge_fallback
         [OF d, of ?P "section_of ''k: {hash: 'h1'}'' ''<<< not a fragment >>>''"]
       smart_merge_fallback
         [OF m, of ?P "section_of ''\"A\": {\"hash\": \"h1\"}'' ''\"A\": null''"]
       r u t n
  show ?thesis by (simp add: section_of_def fragment_text_def)
qed

text \<open>
  Claim C4 as stated fails, a fragment that parses being one that \<^verbatim>\<open>JSON.parse\<close>
  accepts, with or without braces added.  In the first conflict the fragment of
  \<^verbatim>\<open>theirs\<close> has lost its closing brace: only the fragment of \<^verbatim>\<open>ours\<close> parses, and the
  resolution is not that fragment but the printed merge, in which the scope is the rest
  of the broken line as a string.  In the second conflict a comma ends both fragments:
  neither parses, and the resolution is not the fragment of \<^verbatim>\<open>ours\<close>.
\<close>

theorem lenient_reading_counterexample:
  "spec_parses_as_data reference_platform ''\"A\": {\"hash\": \"h1\"}'' \<and>
   \<not> spec_parses_as_data reference_platform ''\"A\": {\"hash\": \"h2\"'' \<and>
   smartResolve reference_platform
     (section_of ''\"A\": {\"hash\": \"h1\"}'' ''\"A\": {\"hash\": \"h2\"'') ''meta.json'' =
     Inr (''        \"A\": '' @ print_string ''{\"hash\": \"h2'') \<and>
   smartResolve reference_platform
     (section_of ''\"A\": {\"hash\": \"h1\"}'' ''\"A\": {\"hash\": \"h2\"'') ''meta.json'' \<noteq>
     Inr ''\"A\": {\"hash\": \"h1\"}'' \<and>
   \<not> spec_parses_as_data reference_platform ''\"A\": 1,'' \<and>
   \<not> spec_parses_as_data reference_platform ''\"A\": 2,'' \<and>
   smartResolve reference_platform (section_of ''\"A\": 1,'' ''\"A\": 2,'') ''meta.json'' =
     Inr ''        \"A\": \"2,\"'' \<and>
   smartResolve reference_platform (section_of ''\"A\": 1,'' ''\"A\": 2,'') ''meta.json'' \<noteq>
     Inr ''\"A\": 1,''"
  by code_simp

subsection \<open>The metadata test of the repository\<close>

text \<open>The conflict of the repository's test ``should merge meta.json conflicts
  intelligently'', resolved as the test does and read back: both one-sided scopes are
  there, and the scope that both sides define has the content of \<^verbatim>\<open>theirs\<close>, which
  is the longer one in this test.\<close>

definition mockMetaConflict :: string where
  "mockMetaConflict = join_lines
     [''{'',
      ''  \"version\": 0.1,'',
      ''  \"files\": {'',
      ''    \"App.tsx\": {'',
      ''      \"scopes\": {'',
      ''<<<<<<< HEAD'',
      ''        \"existing-scope\": {'',
      ''          \"type\": \"element\",'',
      ''          \"hash\": \"old-hash\",'',
      ''          \"content\": \"Old content\"'',
      ''        },'',
      ''        \"our-scope\": {'',
      ''          \"type\": \"element\", '',
      ''          \"hash\": \"our-hash\",'',
      ''          \"content\": \"Our content\"'',
      ''        }'',
      ''======='',
      ''        \"existing-scope\": {'',
      ''          \"type\": \"element\",'',
      ''          \"hash\": \"new-hash\",'',
      ''          \"content\": \"Updated content with more details\"'',
      ''        },'',
      ''        \"their-scope\": {'',
      ''          \"type\": \"element\",'',
      ''          \"hash\": \"their-hash\", '',
      ''          \"content\": \"Their content\"'',
      ''        }'',
      ''>>>>>>> branch'',
      ''      }'',
      ''    }'',
      ''  }'',
      ''}'']"

lemma mockMetaConflict_resolved:
  "(case resolveConflicts mockMetaConflict (smartResolveMeta reference_platform) of
      Inl e \<Rightarrow> Inl (message e)
    | Inr resolved \<Rightarrow> read_json resolved) =
   Inr (JObj
     [(''version'', JNum (1 / 10)),
      (''files'', JObj
        [(''App.tsx'', JObj
          [(''scopes'', JObj
            [(''existing-scope'', JObj
               [(''type'', JStr ''element''), (''hash'', JStr ''new-hash''),
                (''content'', JStr ''Updated content with more details'')]),
             (''our-scope'', JObj
               [(''type'', JStr ''element''), (''hash'', JStr ''our-hash''),
                (''content'', JStr ''Our content'')]),
             (''their-scope'', JObj
               [(''type'', JStr ''element''), (''hash'', JStr ''their-hash''),
                (''content'', JStr ''Their content'')])])])])])"
  unfolding mockMetaConflict_def by code_simp

end

